theory Spec2Isabelle
  imports Complex_Main "HOL-Library.Word"
begin

section \<open>The CareSens driver (src/lib/drivers/i-sens/careSens.js)\<close>

text \<open>
  Bytes are 8-bit words, as the elements of a \<^verbatim>\<open>Uint8Array\<close>. JavaScript numbers that
  hold lengths, indices and 16-bit fields are natural numbers; where they are stored into a
  byte the wrap-around of the typed array is the conversion \<open>of_nat\<close>.
\<close>

type_synonym byte = "8 word"

subsection \<open>Constants\<close>

definition COMMAND_HEADER :: string where "COMMAND_HEADER = ''iSPc''"
definition COMMAND_GLUCOSE_RESULT :: string where "COMMAND_GLUCOSE_RESULT = ''GLUE''"
definition COMMAND_CURRENT_INDEX :: string where "COMMAND_CURRENT_INDEX = ''NCOT''"
definition COMMAND_READ_SERIAL :: string where "COMMAND_READ_SERIAL = ''RSNB''"
definition COMMAND_READ_TIME :: string where "COMMAND_READ_TIME = ''RTIM''"
definition COMMAND_WRITE_TIME :: string where "COMMAND_WRITE_TIME = ''WTIM''"

definition STX :: byte where "STX = 0x02"
definition ETX :: byte where "ETX = 0x03"

definition HEADER_SIZE :: nat where "HEADER_SIZE = 6"

text \<open>
  The failures of the driver. \<open>HeaderNotFound\<close> is \<^verbatim>\<open>Error('Header not found')\<close>,
  \<open>ChecksumMismatch\<close> is \<^verbatim>\<open>Error('Checksum mismatch')\<close>, \<open>DeviceError\<close> carries the name
  found in the \<^verbatim>\<open>ERROR\<close> table for an error token sent by the meter,
  \<open>DeviceNotResponding\<close> is \<^verbatim>\<open>Error('Device not responding.')\<close> and \<open>NoRecords\<close> is
  \<^verbatim>\<open>Error('Device has no records to upload')\<close>. \<open>ReadPastEnd\<close> marks a decode whose
  format reaches outside the buffer (or has a negative data length): JavaScript reads
  \<^verbatim>\<open>undefined\<close> there and what the struct library makes of it is not part of this model.
\<close>

datatype error =
    HeaderNotFound
  | ChecksumMismatch
  | DeviceError string
  | DeviceNotResponding
  | NoRecords
  | ReadPastEnd

text \<open>The \<^verbatim>\<open>ERROR\<close> table: token and name, in the order of the source.\<close>

definition ERROR :: "(string \<times> string) list" where
  "ERROR =
    [(''TOUT'', ''Communication timeout''),
     (''HEAD'', ''Could not verify header packet''),
     (''SIZE'', ''Could not verify size of packet''),
     (''ECRC'', ''Could not verify CRC of packet''),
     (''CMND'', ''Could not verify packet command'')]"

subsection \<open>The struct and crc libraries\<close>

definition byte_of_char :: "char \<Rightarrow> byte" where
  "byte_of_char c = of_nat (of_char c)"

definition char_of_byte :: "byte \<Rightarrow> char" where
  "char_of_byte b = char_of (unat b)"

text \<open>
  Modelled from the spec: \<^verbatim>\<open>struct.pack\<close> with the format \<^verbatim>\<open>4z\<close> (lib/struct.js is
  not among the sources). The spec calls the field a fixed 4-byte magic and a 4-character
  opcode: the character codes of the string, in a field of \<open>n\<close> bytes of a zeroed buffer.
\<close>

definition pack_z :: "nat \<Rightarrow> string \<Rightarrow> byte list" where
  "pack_z n s = take n (map byte_of_char s @ replicate n 0)"

text \<open>
  Modelled from the spec: \<^verbatim>\<open>struct.unpack\<close> with the format \<^verbatim>\<open>4z\<close>: the \<open>n\<close> characters
  stored at \<open>off\<close> (fewer when the buffer ends before).
\<close>

definition unpack_z :: "byte list \<Rightarrow> nat \<Rightarrow> nat \<Rightarrow> string" where
  "unpack_z bytes off n = map char_of_byte (take n (drop off bytes))"

text \<open>
  Modelled from the spec: the format \<^verbatim>\<open>S\<close>, a 16-bit value with the high byte first
  (\<^verbatim>\<open>struct.extractBEShort\<close> reads it back); the format \<^verbatim>\<open>b\<close> is one byte. A read
  outside the buffer is \<open>None\<close> (\<^verbatim>\<open>undefined\<close> or \<^verbatim>\<open>NaN\<close> in JavaScript).
\<close>

definition storeBEShort :: "nat \<Rightarrow> byte list" where
  "storeBEShort v = [of_nat (v div 256), of_nat v]"

definition extractByte :: "byte list \<Rightarrow> nat \<Rightarrow> nat option" where
  "extractByte bytes off = (if off < length bytes then Some (unat (bytes ! off)) else None)"

definition extractBEShort :: "byte list \<Rightarrow> nat \<Rightarrow> nat option" where
  "extractBEShort bytes off =
     (if off + 1 < length bytes
      then Some (unat (bytes ! off) * 256 + unat (bytes ! (off + 1)))
      else None)"

text \<open>
  Writing into a typed array: the bytes \<open>xs\<close> replace those of \<open>buf\<close> from \<open>off\<close> on; the
  length of the buffer never changes (\<^verbatim>\<open>struct.pack\<close>, \<^verbatim>\<open>struct.copyBytes\<close>,
  \<^verbatim>\<open>struct.storeByte\<close>).
\<close>

definition store_bytes :: "byte list \<Rightarrow> nat \<Rightarrow> byte list \<Rightarrow> byte list" where
  "store_bytes buf off xs =
     take off buf @ take (length buf - off) xs @ drop (off + length xs) buf"

text \<open>
  Modelled from the spec: \<^verbatim>\<open>crcCalculator.calcCRC_A(bytes, size)\<close> (lib/crc.js is not among
  the sources) is a 16-bit checksum of the first \<open>n\<close> bytes. The checksum function itself
  is the parameter \<open>crc\<close> of every definition that needs it.
\<close>

definition calcCRC_A :: "(byte list \<Rightarrow> 16 word) \<Rightarrow> byte list \<Rightarrow> nat \<Rightarrow> nat" where
  "calcCRC_A crc bytes n = unat (crc (take n bytes))"

subsection \<open>buildPacket\<close>

definition buildPacket :: "(byte list \<Rightarrow> 16 word) \<Rightarrow> string \<Rightarrow> byte list \<Rightarrow> byte list" where
  "buildPacket crc command payload =
     (let datalen = 7 + length payload;
          packetlen = datalen + 7;
          bytes0 = replicate packetlen (0 :: byte);
          bytes1 = store_bytes bytes0 0
                     ([of_nat packetlen, STX] @ pack_z 4 COMMAND_HEADER
                        @ [of_nat datalen] @ pack_z 4 command);
          ctr1 = 11;
          bytes2 = store_bytes bytes1 ctr1 payload;
          ctr2 = ctr1 + length payload;
          bytes3 = store_bytes bytes2 ctr2 [ETX];
          c = calcCRC_A crc (drop 1 bytes3) (packetlen - 3);
          bytes4 = store_bytes bytes3 ctr2 (storeBEShort c @ [ETX])
      in bytes4)"

subsection \<open>verifyChecksum, extractHeader, extractPacketIntoMessages\<close>

text \<open>
  \<^verbatim>\<open>bytes.splice(bytes.length - 3, 2)\<close>: two elements are removed from the start index on; a
  negative start index counts from the end and stops at 0.
\<close>

definition splice_crc :: "byte list \<Rightarrow> byte list" where
  "splice_crc bytes =
     (let l = length bytes;
          start = (if 3 \<le> l then l - 3 else (2 * l) - 3)
      in take start bytes @ drop (start + 2) bytes)"

definition verifyChecksum :: "(byte list \<Rightarrow> 16 word) \<Rightarrow> byte list \<Rightarrow> nat option \<Rightarrow> error + unit" where
  "verifyChecksum crc bytes expected =
     (let bytes' = splice_crc bytes;
          calculated = calcCRC_A crc bytes' (length bytes')
      in if Some calculated \<noteq> expected then Inl ChecksumMismatch else Inr ())"

record header_fields =
  header :: string
  size_field :: "nat option"

definition extractHeader :: "byte list \<Rightarrow> error + header_fields" where
  "extractHeader bytes =
     (let hdr = \<lparr> header = unpack_z bytes 1 4, size_field = extractByte bytes 5 \<rparr>
      in if header hdr \<noteq> COMMAND_HEADER then Inl HeaderNotFound else Inr hdr)"

record response =
  command :: string
  data :: "byte list"
  crc_field :: "nat option"

text \<open>
  \<^verbatim>\<open>struct.unpack(bytes, 6, `4z${fields.size - 7}BS`, ['command', 'data', 'crc'])\<close>: the
  command at offset 6, \<open>size - 7\<close> data bytes at offset 10 and the 16-bit checksum after them.
\<close>

definition unpack_response :: "byte list \<Rightarrow> nat \<Rightarrow> response" where
  "unpack_response bytes sz =
     \<lparr> command = unpack_z bytes 6 4,
       data = take (sz - 7) (drop 10 bytes),
       crc_field = extractBEShort bytes (10 + (sz - 7)) \<rparr>"

definition extractPacketIntoMessages :: "(byte list \<Rightarrow> 16 word) \<Rightarrow> byte list \<Rightarrow> error + response" where
  "extractPacketIntoMessages crc bytes =
     (case extractHeader bytes of
        Inl e \<Rightarrow> Inl e
      | Inr hdr \<Rightarrow>
          (case size_field hdr of
             None \<Rightarrow> Inl ReadPastEnd
           | Some sz \<Rightarrow>
               if sz < 7 \<or> length bytes < sz + 5 then Inl ReadPastEnd
               else
                 let response = unpack_response bytes sz
                 in if command response \<noteq> COMMAND_GLUCOSE_RESULT
                    then (case verifyChecksum crc bytes (crc_field response) of
                            Inl e \<Rightarrow> Inl e
                          | Inr _ \<Rightarrow> Inr response)
                    else Inr response))"

subsection \<open>The HID transport\<close>

text \<open>
  The transport is outside the driver. Its receive side is a function from the number of
  the call of \<^verbatim>\<open>receiveTimeout\<close> to the report that call returns (the empty list when the
  timeout passes with nothing received); what the driver does to the device is recorded as
  a trace of events.
\<close>

type_synonym transport = "nat \<Rightarrow> byte list"

datatype hid_event = Sent "byte list" | ReceiveTimeout nat

definition READ_TIMEOUT :: nat where "READ_TIMEOUT = 2000"

record driver_state =
  retries :: nat
  received :: nat
  trace :: "hid_event list"

definition sendPromisified :: "byte list \<Rightarrow> driver_state \<Rightarrow> driver_state" where
  "sendPromisified bytes s = s\<lparr>trace := trace s @ [Sent bytes]\<rparr>"

definition receiveTimeout :: "transport \<Rightarrow> nat \<Rightarrow> driver_state \<Rightarrow> byte list \<times> driver_state" where
  "receiveTimeout t timeout s =
     (t (received s),
      s\<lparr>received := received s + 1, trace := trace s @ [ReceiveTimeout timeout]\<rparr>)"

subsection \<open>commandResponse\<close>

text \<open>
  The local variables of the read loop. \<open>packetSize\<close> is \<open>None\<close> when the size field read
  from the header is \<^verbatim>\<open>undefined\<close>.
\<close>

record rx_state =
  raw :: "byte list"
  foundSTX :: bool
  foundETX :: bool
  packetSize :: "nat option"

definition rx_init :: rx_state where
  "rx_init = \<lparr> raw = [], foundSTX = False, foundETX = False, packetSize = Some 64 \<rparr>"

text \<open>
  The payload region of a report, \<^verbatim>\<open>result.slice(1, length + 1)\<close> with \<^verbatim>\<open>length = result[0]\<close>:
  the bytes after the length byte, as many as it says.
\<close>

definition report_payload :: "byte list \<Rightarrow> byte list" where
  "report_payload result = take (unat (result ! 0)) (drop 1 result)"

text \<open>The body of the \<^verbatim>\<open>do ... while\<close> loop, applied to the report just received.\<close>

definition receive_report :: "rx_state \<Rightarrow> byte list \<Rightarrow> error + rx_state" where
  "receive_report s result =
     (if length result > 0 then
        let bytes = report_payload result;
            s1 = (if \<not> foundSTX s
                  then (if STX \<in> set bytes then s\<lparr>foundSTX := True\<rparr> else s)
                  else s)
        in if foundSTX s1 then
             let s2 = s1\<lparr>raw := raw s1 @ bytes\<rparr>
             in case (if length (raw s2) = HEADER_SIZE
                      then (case extractHeader (raw s2) of
                              Inl e \<Rightarrow> Inl e
                            | Inr hdr \<Rightarrow> Inr (s2\<lparr>packetSize := size_field hdr\<rparr>))
                      else Inr s2) of
                  Inl e \<Rightarrow> Inl e
                | Inr s3 \<Rightarrow>
                    Inr (if ETX \<in> set bytes
                            \<and> (case packetSize s3 of
                                  None \<Rightarrow> False
                                | Some p \<Rightarrow> length (raw s3) \<ge> p + HEADER_SIZE)
                         then s3\<lparr>foundETX := True\<rparr>
                         else s3)
           else Inr s1
      else Inr s)"

text \<open>
  The loop itself. It has no bound of its own, so it is a partial function: \<open>None\<close> is a
  loop that never ends.
\<close>

partial_function (option) receiveLoop ::
  "transport \<Rightarrow> driver_state \<Rightarrow> rx_state \<Rightarrow> ((error + rx_state) \<times> driver_state) option"
where
  "receiveLoop t hid s =
     (case receiveTimeout t READ_TIMEOUT hid of
        (result, hid') \<Rightarrow>
          (case receive_report s result of
             Inl e \<Rightarrow> Some (Inl e, hid')
           | Inr s' \<Rightarrow>
               if \<not> foundETX s' then receiveLoop t hid' s' else Some (Inr s', hid')))"

text \<open>
  Modelled from the spec: \<^verbatim>\<open>common.getName(ERROR, token)\<close> (lib/commonFunctions.js is not
  among the sources) looks the token up in the error code table; a token that is not in the
  table gives \<^verbatim>\<open>'unknown'\<close>.
\<close>

definition getName :: "(string \<times> string) list \<Rightarrow> string option \<Rightarrow> string" where
  "getName table tok =
     (case tok of
        None \<Rightarrow> ''unknown''
      | Some c \<Rightarrow> (case map_of table c of None \<Rightarrow> ''unknown'' | Some n \<Rightarrow> n))"

text \<open>
  The message returned is \<open>None\<close> for the empty string the source starts from, when the
  loop ends with nothing accumulated.
\<close>

definition commandResponse ::
  "(byte list \<Rightarrow> 16 word) \<Rightarrow> transport \<Rightarrow> driver_state \<Rightarrow> string \<Rightarrow> byte list
     \<Rightarrow> ((error + response option) \<times> driver_state) option"
where
  "commandResponse crc t hid cmd payload =
     (let hid1 = sendPromisified (buildPacket crc cmd payload) hid
      in case receiveLoop t hid1 rx_init of
           None \<Rightarrow> None
         | Some (Inl e, hid2) \<Rightarrow> Some (Inl e, hid2)
         | Some (Inr s, hid2) \<Rightarrow>
             (case (if length (raw s) > 0
                    then map_sum id Some (extractPacketIntoMessages crc (raw s))
                    else Inr None) of
                Inl e \<Rightarrow> Some (Inl e, hid2)
              | Inr message \<Rightarrow>
                  let err = getName ERROR (map_option command message)
                  in if err \<noteq> ''unknown''
                     then Some (Inl (DeviceError err), hid2)
                     else Some (Inr message, hid2)))"

subsection \<open>ping\<close>

function ping :: "transport \<Rightarrow> driver_state \<Rightarrow> error option \<times> driver_state" where
  "ping t s =
     (let s1 = sendPromisified [0x01, 0x80] s;
          (result, s2) = receiveTimeout t READ_TIMEOUT s1
      in if length result = 0 then
           if retries s2 \<le> 3
           then ping t (s2\<lparr>retries := retries s2 + 1\<rparr>)
           else (Some DeviceNotResponding, s2)
         else (None, s2\<lparr>retries := 0\<rparr>))"
  by pat_completeness auto
termination
  by (relation "measure (\<lambda>(t, s). 4 - retries s)")
     (auto simp: sendPromisified_def receiveTimeout_def)

subsection \<open>getNumberOfRecords and getRecords\<close>

text \<open>
  A record as \<^verbatim>\<open>getRecords\<close> decodes it. A field read outside the response is \<open>None\<close>.
  \<open>jsDate\<close> stands for \<^verbatim>\<open>sundial.buildTimestamp(record)\<close>, a value of an external
  library: it is kept as the six fields it is built from.
\<close>

record raw_record =
  year :: "nat option"
  month :: "nat option"
  day :: "nat option"
  hours :: "nat option"
  minutes :: "nat option"
  seconds :: "nat option"
  flags :: "nat option"
  raw_value :: "nat option"
  jsDate :: "nat option list"

definition unpack_record :: "byte list \<Rightarrow> nat \<Rightarrow> raw_record" where
  "unpack_record bytes ctr =
     (let y = map_option (\<lambda>v. v + 2000) (extractByte bytes ctr);
          mo = extractByte bytes (ctr + 1);
          d = extractByte bytes (ctr + 2);
          h = extractByte bytes (ctr + 3);
          mi = extractByte bytes (ctr + 4);
          se = extractByte bytes (ctr + 5)
      in \<lparr> year = y, month = mo, day = d, hours = h, minutes = mi, seconds = se,
           flags = extractByte bytes (ctr + 6),
           raw_value = extractBEShort bytes (ctr + 7),
           jsDate = [y, mo, d, h, mi, se] \<rparr>)"

text \<open>
  The inner loop \<^verbatim>\<open>for (let i = 0; i < count; i++)\<close>, by the number of rounds left.
\<close>

fun read_records :: "byte list \<Rightarrow> nat \<Rightarrow> nat \<Rightarrow> raw_record list \<Rightarrow> raw_record list" where
  "read_records bytes ctr 0 records = records"
| "read_records bytes ctr (Suc k) records =
     read_records bytes (ctr + 9) k (records @ [unpack_record bytes ctr])"

text \<open>
  \<^verbatim>\<open>getRecords\<close> and \<^verbatim>\<open>getNumberOfRecords\<close> talk to the meter through
  \<^verbatim>\<open>this.commandResponse\<close> only. The outcome of each call is the parameter \<open>cr\<close>: the
  number of the exchange, the command and the payload give \<open>None\<close> when the call never
  returns, an error when it throws, and the response otherwise. The exchanges made so far
  are kept in \<open>calls\<close>.
\<close>

type_synonym exchange = "nat \<Rightarrow> string \<Rightarrow> byte list \<Rightarrow> (error + response) option"

definition getNumberOfRecords ::
  "exchange \<Rightarrow> (string \<times> byte list) list
     \<Rightarrow> ((error + nat option) \<times> (string \<times> byte list) list) option"
where
  "getNumberOfRecords cr calls =
     (case cr (length calls) COMMAND_CURRENT_INDEX [] of
        None \<Rightarrow> None
      | Some (Inl e) \<Rightarrow> Some (Inl e, calls @ [(COMMAND_CURRENT_INDEX, [])])
      | Some (Inr result) \<Rightarrow>
          Some (Inr (extractBEShort (data result) 0), calls @ [(COMMAND_CURRENT_INDEX, [])]))"

function getRecords_loop ::
  "exchange \<Rightarrow> (string \<times> byte list) list \<Rightarrow> nat \<Rightarrow> nat \<Rightarrow> raw_record list
     \<Rightarrow> ((error + raw_record list) \<times> (string \<times> byte list) list) option"
where
  "getRecords_loop cr calls startIndex nrOfRecords records =
     (if startIndex \<le> nrOfRecords then
        let count = (if nrOfRecords - startIndex \<ge> 27 then 27 else nrOfRecords - startIndex + 1);
            bytes = store_bytes (replicate 3 0) 0 (storeBEShort startIndex @ [of_nat count]);
            calls' = calls @ [(COMMAND_GLUCOSE_RESULT, bytes)]
        in case cr (length calls) COMMAND_GLUCOSE_RESULT bytes of
             None \<Rightarrow> None
           | Some (Inl e) \<Rightarrow> Some (Inl e, calls')
           | Some (Inr result) \<Rightarrow>
               getRecords_loop cr calls' (startIndex + 27) nrOfRecords
                 (read_records (data result) 0 count records)
      else Some (Inr records, calls))"
  by pat_completeness auto
termination
  by (relation "measure (\<lambda>(cr, calls, startIndex, nrOfRecords, records).
                    nrOfRecords + 1 - startIndex)") auto

definition getRecords ::
  "exchange \<Rightarrow> (string \<times> byte list) list \<Rightarrow> nat
     \<Rightarrow> ((error + raw_record list) \<times> (string \<times> byte list) list) option"
where
  "getRecords cr calls nrOfRecords = getRecords_loop cr calls 1 nrOfRecords []"

subsection \<open>Building the records to upload\<close>

definition FLAGS_CONTROL_SOLUTION :: nat where "FLAGS_CONTROL_SOLUTION = 0x01"
definition FLAGS_POST_MEAL :: nat where "FLAGS_POST_MEAL = 0x02"
definition FLAGS_LO :: nat where "FLAGS_LO = 0x04"
definition FLAGS_HI :: nat where "FLAGS_HI = 0x08"
definition FLAGS_FASTING :: nat where "FLAGS_FASTING = 0x10"
definition FLAGS_NORMAL :: nat where "FLAGS_NORMAL = 0x20"
definition FLAGS_KETONE :: nat where "FLAGS_KETONE = 0x40"
definition FLAGS_LOW_HIGH :: nat where "FLAGS_LOW_HIGH = 0x80"

definition KETONE_VALUE_FACTOR :: rat where "KETONE_VALUE_FACTOR = 10"
definition KETONE_HI :: rat where "KETONE_HI = 8"

text \<open>\<^verbatim>\<open>flag.value & v\<close> is 0 when \<open>v\<close> is \<^verbatim>\<open>undefined\<close>.\<close>

definition hasFlag :: "nat \<Rightarrow> nat option \<Rightarrow> bool" where
  "hasFlag flag v = (case v of None \<Rightarrow> False | Some x \<Rightarrow> and flag x \<noteq> 0)"

text \<open>\<^verbatim>\<open>_.toInteger\<close> of lodash: 0 for \<^verbatim>\<open>undefined\<close> and \<^verbatim>\<open>NaN\<close>.\<close>

definition toInteger :: "nat option \<Rightarrow> nat" where
  "toInteger v = (case v of None \<Rightarrow> 0 | Some n \<Rightarrow> n)"

datatype record_type = SMBG | BloodKetone

record annotation =
  code :: string
  threshold_side :: string
  threshold :: rat

text \<open>
  The record under construction and the record uploaded. \<open>index\<close> is \<open>None\<close> when the
  object has no such property. The UTC fields that \<^verbatim>\<open>cfg.tzoUtil.fillInUTCInfo\<close> adds come
  from the timezone utility, which is outside the driver, and are left out.
\<close>

record post_record =
  record_type :: record_type
  post_value :: rat
  units :: string
  deviceTime :: "nat option list"
  index :: "nat option"
  annotations :: "annotation list"

text \<open>
  Modelled from the spec: the record builder \<^verbatim>\<open>cfg.builder\<close> (lib/objectBuilder.js is not
  among the sources) makes a normalized record of the given type, with its value, unit and
  device-local timestamp; \<^verbatim>\<open>set('index', index)\<close> attaches the fetch-order index and
  \<^verbatim>\<open>done()\<close> returns the record built.
\<close>

definition makeRecord :: "record_type \<Rightarrow> post_record" where
  "makeRecord ty = \<lparr> record_type = ty, post_value = 0, units = [], deviceTime = [],
                     index = None, annotations = [] \<rparr>"

definition with_value :: "rat \<Rightarrow> post_record \<Rightarrow> post_record" where
  "with_value v b = b\<lparr>post_value := v\<rparr>"

definition with_units :: "string \<Rightarrow> post_record \<Rightarrow> post_record" where
  "with_units u b = b\<lparr>units := u\<rparr>"

definition with_deviceTime :: "nat option list \<Rightarrow> post_record \<Rightarrow> post_record" where
  "with_deviceTime d b = b\<lparr>deviceTime := d\<rparr>"

definition set_index :: "nat \<Rightarrow> post_record \<Rightarrow> post_record" where
  "set_index i b = b\<lparr>index := Some i\<rparr>"

text \<open>
  Modelled from the spec: \<^verbatim>\<open>annotate.annotateEvent\<close> (lib/eventAnnotations.js is not among
  the sources) attaches the annotation to the record.
\<close>

definition annotateEvent :: "post_record \<Rightarrow> annotation \<Rightarrow> post_record" where
  "annotateEvent b a = b\<lparr>annotations := annotations b @ [a]\<rparr>"

definition delete_index :: "post_record \<Rightarrow> post_record" where
  "delete_index r = r\<lparr>index := None\<rparr>"

record session_data =
  nrOfRecords :: "nat option"
  records :: "raw_record list"
  post_records :: "post_record list"

text \<open>Lines 342 to 362 of \<^verbatim>\<open>buildBGRecords\<close>: the value and the annotation of a record.\<close>

definition bg_value_annotation :: "raw_record \<Rightarrow> rat \<times> annotation option" where
  "bg_value_annotation record =
     (if hasFlag FLAGS_HI (flags record) then
        (601, Some \<lparr> code = ''bg/out-of-range'', threshold_side = ''high'', threshold = 600 \<rparr>)
      else if hasFlag FLAGS_LO (flags record) then
        (19, Some \<lparr> code = ''bg/out-of-range'', threshold_side = ''low'', threshold = 20 \<rparr>)
      else (of_nat (toInteger (raw_value record)), None))"

text \<open>The callback of \<^verbatim>\<open>_.forEach\<close> in \<^verbatim>\<open>buildBGRecords\<close>.\<close>

definition bg_callback :: "raw_record \<Rightarrow> nat \<Rightarrow> session_data \<Rightarrow> session_data" where
  "bg_callback record idx d =
     (case bg_value_annotation record of
        (v, ann) \<Rightarrow>
          if \<not> hasFlag FLAGS_CONTROL_SOLUTION (flags record)
             \<and> \<not> hasFlag FLAGS_KETONE (flags record)
          then
            let recordBuilder =
                  set_index idx
                    (with_deviceTime (jsDate record)
                       (with_units ''mg/dL'' (with_value v (makeRecord SMBG))));
                recordBuilder' =
                  (case ann of None \<Rightarrow> recordBuilder | Some a \<Rightarrow> annotateEvent recordBuilder a);
                postRecord = delete_index recordBuilder'
            in d\<lparr>post_records := post_records d @ [postRecord]\<rparr>
          else d)"

text \<open>The callback of \<^verbatim>\<open>_.forEach\<close> in \<^verbatim>\<open>buildKetoneRecords\<close>.\<close>

definition ketone_value_annotation :: "raw_record \<Rightarrow> rat \<times> annotation option" where
  "ketone_value_annotation record =
     (if hasFlag FLAGS_HI (flags record) then
        (KETONE_HI + 1 / KETONE_VALUE_FACTOR,
         Some \<lparr> code = ''ketone/out-of-range'', threshold_side = ''high'',
                threshold = KETONE_HI \<rparr>)
      else (of_nat (toInteger (raw_value record)) / KETONE_VALUE_FACTOR, None))"

definition ketone_callback :: "raw_record \<Rightarrow> nat \<Rightarrow> session_data \<Rightarrow> session_data" where
  "ketone_callback record idx d =
     (if hasFlag FLAGS_KETONE (flags record) then
        (case ketone_value_annotation record of
           (v, ann) \<Rightarrow>
             if \<not> hasFlag FLAGS_CONTROL_SOLUTION (flags record) then
               let recordBuilder =
                     set_index idx
                       (with_deviceTime (jsDate record)
                          (with_units ''mmol/L'' (with_value v (makeRecord BloodKetone))));
                   recordBuilder' =
                     (case ann of None \<Rightarrow> recordBuilder | Some a \<Rightarrow> annotateEvent recordBuilder a);
                   postRecord = delete_index recordBuilder'
               in d\<lparr>post_records := post_records d @ [postRecord]\<rparr>
             else d)
      else d)"

text \<open>
  \<^verbatim>\<open>_.forEach(data.records, callback)\<close>: the callback is applied to each record and its
  index, in the order of the list.
\<close>

fun forEach ::
  "(raw_record \<Rightarrow> nat \<Rightarrow> session_data \<Rightarrow> session_data) \<Rightarrow> nat \<Rightarrow> raw_record list
     \<Rightarrow> session_data \<Rightarrow> session_data"
where
  "forEach f idx [] d = d"
| "forEach f idx (r # rs) d = forEach f (idx + 1) rs (f r idx d)"

definition buildBGRecords :: "session_data \<Rightarrow> session_data" where
  "buildBGRecords d = forEach bg_callback 0 (records d) d"

definition buildKetoneRecords :: "session_data \<Rightarrow> session_data" where
  "buildKetoneRecords d = forEach ketone_callback 0 (records d) d"

text \<open>
  \<^verbatim>\<open>processData\<close>: the error handed to the callback, if any, and the data after the stage.
\<close>

definition processData :: "session_data \<Rightarrow> error option \<times> session_data" where
  "processData d =
     (let d1 = d\<lparr>post_records := []\<rparr>;
          d2 = buildBGRecords d1;
          d3 = buildKetoneRecords d2
      in if length (post_records d3) = 0 then (Some NoRecords, d3) else (None, d3))"

subsection \<open>The layout of a packet\<close>

text \<open>
  The bytes of a packet from the start-control byte to the end of the payload, as
  \<^verbatim>\<open>buildPacket\<close> lays them out.
\<close>

definition packet_body :: "string \<Rightarrow> byte list \<Rightarrow> byte list" where
  "packet_body cmd payload =
     [STX] @ pack_z 4 COMMAND_HEADER @ [of_nat (7 + length payload)] @ pack_z 4 cmd @ payload"

subsection \<open>Sample packets\<close>

text \<open>
  A packet is complete for the decoder when its header is the protocol's, its size field is
  at least the 7 bytes of command, checksum and terminator, and the fields the size
  announces lie inside the buffer.
\<close>

definition complete_packet :: "byte list \<Rightarrow> nat \<Rightarrow> bool" where
  "complete_packet bytes sz \<longleftrightarrow>
     extractHeader bytes = Inr \<lparr> header = COMMAND_HEADER, size_field = Some sz \<rparr>
     \<and> 7 \<le> sz \<and> sz + 5 \<le> length bytes"

text \<open>
  Two responses without data whose checksum field is 0xFFFF: a glucose result (GLUE) and a
  device time (RTIM).
\<close>

definition glue_packet :: "byte list" where
  "glue_packet = [0x02, 0x69, 0x53, 0x50, 0x63, 7, 0x47, 0x4C, 0x55, 0x45, 0xFF, 0xFF, 0x03]"

definition rtim_packet :: "byte list" where
  "rtim_packet = [0x02, 0x69, 0x53, 0x50, 0x63, 7, 0x52, 0x54, 0x49, 0x4D, 0xFF, 0xFF, 0x03]"

subsection \<open>Sample transports and the driver's first state\<close>

text \<open>A transport on which every receive times out.\<close>

definition silent :: transport where
  "silent k = []"

text \<open>A transport that answers the third receive only, with a report of one byte.\<close>

definition answers_third :: transport where
  "answers_third k = (if k = 2 then [1, 0x06] else [])"

text \<open>The state the constructor leaves: no retries, nothing sent or received.\<close>

definition driver_init :: driver_state where
  "driver_init = \<lparr> retries = 0, received = 0, trace = [] \<rparr>"

text \<open>
  One attempt of \<^verbatim>\<open>ping\<close> as the device sees it: the probe is sent, then one receive with
  the read timeout. \<open>probes\<close> counts the probes in a trace.
\<close>

definition probe_round :: "hid_event list" where
  "probe_round = [Sent [0x01, 0x80], ReceiveTimeout READ_TIMEOUT]"

definition probes :: "driver_state \<Rightarrow> nat" where
  "probes s = length (filter (\<lambda>e. e = Sent [0x01, 0x80]) (trace s))"

subsection \<open>The records uploaded, written out\<close>

text \<open>
  The two flags that decide whether and how a record is uploaded, and the record that the
  builder calls of \<^verbatim>\<open>buildBGRecords\<close> and of \<^verbatim>\<open>buildKetoneRecords\<close> produce for a raw
  record once the index is deleted.
\<close>

definition is_control :: "raw_record \<Rightarrow> bool" where
  "is_control r = hasFlag FLAGS_CONTROL_SOLUTION (flags r)"

definition is_ketone :: "raw_record \<Rightarrow> bool" where
  "is_ketone r = hasFlag FLAGS_KETONE (flags r)"

definition smbg_of :: "raw_record \<Rightarrow> post_record" where
  "smbg_of r = \<lparr> record_type = SMBG, post_value = fst (bg_value_annotation r), units = ''mg/dL'',
      deviceTime = jsDate r, index = None,
      annotations = (case snd (bg_value_annotation r) of None \<Rightarrow> [] | Some a \<Rightarrow> [a]) \<rparr>"

definition ketone_of :: "raw_record \<Rightarrow> post_record" where
  "ketone_of r = \<lparr> record_type = BloodKetone, post_value = fst (ketone_value_annotation r), units = ''mmol/L'',
      deviceTime = jsDate r, index = None,
      annotations = (case snd (ketone_value_annotation r) of None \<Rightarrow> [] | Some a \<Rightarrow> [a]) \<rparr>"

text \<open>
  Sample records with the given flags and value, and a session with four of them: a ketone
  reading, a plain glucose reading, a control-solution test and a reading with both the HI
  and the LO flag.
\<close>

definition sample_record :: "nat \<Rightarrow> nat \<Rightarrow> raw_record" where
  "sample_record f v =
     \<lparr> year = Some 2020, month = Some 5, day = Some 17, hours = Some 8, minutes = Some 30,
       seconds = Some 0, flags = Some f, raw_value = Some v,
       jsDate = [Some 2020, Some 5, Some 17, Some 8, Some 30, Some 0] \<rparr>"

definition sample_data :: session_data where
  "sample_data = \<lparr> nrOfRecords = Some 4,
      records = [sample_record 0x40 12, sample_record 0x00 105, sample_record 0x01 98,
                 sample_record 0x0C 0],
      post_records = [] \<rparr>"

subsection \<open>The pages of getRecords, written out\<close>

text \<open>
  The number of exchanges \<^verbatim>\<open>getRecords\<close> makes for \<open>n\<close> records, the count it asks for
  in exchange \<open>k\<close> (from 0), the request of that exchange, and the records decoded from a
  response.
\<close>

definition page_count :: "nat \<Rightarrow> nat" where
  "page_count n = (n + 26) div 27"

definition page_size :: "nat \<Rightarrow> nat \<Rightarrow> nat" where
  "page_size n k = (if n - (1 + 27 * k) \<ge> 27 then 27 else n - (1 + 27 * k) + 1)"

definition page_request :: "nat \<Rightarrow> nat \<Rightarrow> string \<times> byte list" where
  "page_request n k =
     (COMMAND_GLUCOSE_RESULT, storeBEShort (1 + 27 * k) @ [of_nat (page_size n k)])"

definition page_records :: "byte list \<Rightarrow> nat \<Rightarrow> raw_record list" where
  "page_records bytes c = map (\<lambda>i. unpack_record bytes (9 * i)) [0..<c]"

text \<open>A meter that answers every exchange with 243 bytes of data.\<close>

definition sample_exchange :: exchange where
  "sample_exchange k cmd payload =
     Some (Inr \<lparr> command = cmd, data = replicate 243 (of_nat k), crc_field = None \<rparr>)"

text \<open>
  A meter whose response holds two records of 9 bytes: 17 May 2020, 8:30:00, flags 0x08,
  value 0x0259, and 18 May 2020, 7:15:30, flags 0x40, value 0x000C.
\<close>

definition two_record_exchange :: exchange where
  "two_record_exchange k cmd payload =
     Some (Inr \<lparr> command = cmd,
                 data = [20, 5, 17, 8, 30, 0, 0x08, 0x02, 0x59,
                         20, 5, 18, 7, 15, 30, 0x40, 0x00, 0x0C],
                 crc_field = None \<rparr>)"

subsection \<open>Sample reports\<close>

text \<open>A checksum function to run examples with: every checksum is 0.\<close>

definition zero_crc :: "byte list \<Rightarrow> 16 word" where
  "zero_crc bytes = 0"

text \<open>
  The response to a read-time command with the checksum of \<open>zero_crc\<close>, 19 bytes, and two
  ways of delivering it: whole in one report, and as the 6 bytes of the header followed by
  the other 13. After that every receive times out.
\<close>

definition rtim_response :: "byte list" where
  "rtim_response = drop 1 (buildPacket zero_crc COMMAND_READ_TIME [20, 5, 17, 8, 30, 0])"

definition whole_packet_transport :: transport where
  "whole_packet_transport k = (if k = 0 then 19 # rtim_response else [])"

definition header_split_transport :: transport where
  "header_split_transport k =
     (if k = 0 then 6 # take 6 rtim_response
      else if k = 1 then 13 # drop 6 rtim_response
      else [])"

text \<open>
  A transport whose every report carries the two bytes 0x41 0x42 (the length byte 2 is not
  part of the payload region), and one whose every report is six bytes that start with the
  start-control byte but do not hold the protocol's header.
\<close>

definition noise_transport :: transport where
  "noise_transport k = [2, 0x41, 0x42]"

definition bad_header_transport :: transport where
  "bad_header_transport k = [6, 0x02, 0x41, 0x41, 0x41, 0x41, 7]"

section \<open>Properties\<close>

subsection \<open>The codec\<close>

lemma char_of_byte_of_char: "char_of_byte (byte_of_char c) = c"
  by (simp add: char_of_byte_def byte_of_char_def unat_of_nat)

lemma unpack_pack_z: "length s = n \<Longrightarrow> map char_of_byte (pack_z n s) = s"
  by (simp add: pack_z_def char_of_byte_of_char map_idI comp_def)

lemma length_pack_z: "length (pack_z n s) = n"
  by (simp add: pack_z_def)

lemma BEShort_roundtrip:
  "v < 65536 \<Longrightarrow> unat (of_nat (v div 256) :: byte) * 256 + unat (of_nat v :: byte) = v"
  by (simp add: unat_of_nat)

lemma store_bytes_at_end:
  "off = length pre \<Longrightarrow> length xs \<le> length post \<Longrightarrow>
   store_bytes (pre @ post) off xs = pre @ xs @ drop (length xs) post"
  by (simp add: store_bytes_def)

lemma length_packet_body: "length (packet_body cmd payload) = 10 + length payload"
  by (simp add: packet_body_def length_pack_z)

lemma buildPacket_layout:
  "buildPacket crc cmd payload =
     of_nat (length payload + 14) # packet_body cmd payload
       @ storeBEShort (unat (crc (packet_body cmd payload @ [ETX]))) @ [ETX]"
proof -
  let ?n = "length payload"
  let ?hd = "[of_nat (7 + ?n + 7), STX] @ pack_z 4 COMMAND_HEADER @ [of_nat (7 + ?n)] @ pack_z 4 cmd"
  have l: "length ?hd = 11" by (simp add: length_pack_z)
  have b1: "store_bytes (replicate (7 + ?n + 7) 0) 0 ?hd = ?hd @ replicate (?n + 3) 0"
    using store_bytes_at_end [of 0 "[]" ?hd "replicate (7 + ?n + 7) 0"]
    by (simp add: length_pack_z)
  have b2: "store_bytes (?hd @ replicate (?n + 3) 0) 11 payload = ?hd @ payload @ replicate 3 0"
    using store_bytes_at_end [of 11 ?hd payload "replicate (?n + 3) 0"] l by simp
  have b3: "store_bytes ((?hd @ payload) @ replicate 3 0) (11 + ?n) [ETX]
              = (?hd @ payload) @ [ETX] @ replicate 2 0"
    using store_bytes_at_end [of "11 + ?n" "?hd @ payload" "[ETX]" "replicate 3 0"] l
    by (simp add: numeral_3_eq_3 numeral_2_eq_2)
  have b4: "store_bytes ((?hd @ payload) @ [ETX] @ replicate 2 0) (11 + ?n) (storeBEShort c @ [ETX])
              = (?hd @ payload) @ storeBEShort c @ [ETX]" for c
    using store_bytes_at_end [of "11 + ?n" "?hd @ payload" "storeBEShort c @ [ETX]" "[ETX] @ replicate 2 0"] l
    by (simp add: storeBEShort_def)
  have d: "drop 1 ((?hd @ payload) @ [ETX] @ replicate 2 0)
             = (packet_body cmd payload @ [ETX]) @ replicate 2 0"
    by (simp add: packet_body_def)
  have c: "calcCRC_A crc (drop 1 ((?hd @ payload) @ [ETX] @ replicate 2 0)) (7 + ?n + 7 - 3)
             = unat (crc (packet_body cmd payload @ [ETX]))"
    unfolding d calcCRC_A_def
    using length_packet_body [of cmd payload] by simp
  show ?thesis
    unfolding buildPacket_def Let_def b1 b2
    using b3 b4 c by (simp add: packet_body_def add.commute)
qed

lemma unat_of_nat_byte: "k < 256 \<Longrightarrow> unat (of_nat k :: byte) = k"
  by (simp add: unat_of_nat)

lemma unpack_z_header:
  "length h = 4 \<Longrightarrow> unpack_z (s # pack_z 4 h @ rest) 1 4 = h"
  by (simp add: unpack_z_def length_pack_z unpack_pack_z)

lemma extractByte_size:
  "extractByte (s # pack_z 4 h @ b # rest) 5 = Some (unat b)"
  using length_pack_z [of 4 h]
  by (simp add: extractByte_def nth_append)

lemma extractHeader_packet:
  "extractHeader (STX # pack_z 4 COMMAND_HEADER @ b # rest)
     = Inr \<lparr> header = COMMAND_HEADER, size_field = Some (unat b) \<rparr>"
proof -
  have "length COMMAND_HEADER = 4" by (simp add: COMMAND_HEADER_def)
  then show ?thesis
    unfolding extractHeader_def Let_def
    using unpack_z_header [of COMMAND_HEADER STX "b # rest"] extractByte_size [of STX COMMAND_HEADER b rest]
    by simp
qed

lemma unpack_z_command:
  "length c = 4 \<Longrightarrow> unpack_z (s # pack_z 4 h @ b # pack_z 4 c @ rest) 6 4 = c"
  using length_pack_z [of 4 h]
  by (simp add: unpack_z_def length_pack_z unpack_pack_z)

lemma drop_10_packet:
  "drop 10 (s # pack_z 4 h @ b # pack_z 4 c @ rest) = rest"
  using length_pack_z [of 4 h] length_pack_z [of 4 c]
  by simp

lemma extractBEShort_at:
  "off = length pre \<Longrightarrow> extractBEShort (pre @ [hi, lo] @ post) off
     = Some (unat hi * 256 + unat lo)"
  by (simp add: extractBEShort_def nth_append)

lemma splice_crc_packet:
  "splice_crc (pre @ [hi, lo, e]) = pre @ [e]"
  by (simp add: splice_crc_def Let_def)

lemma BEShort_word: "unat (of_nat (unat (w :: 16 word) div 256) :: byte) * 256
    + unat (of_nat (unat w) :: byte) = unat w"
proof -
  have "unat w < 65536" using unsigned_less [of w, where ?'a = nat] by simp
  then show ?thesis by (rule BEShort_roundtrip)
qed

lemma buildPacket_decode:
  assumes c4: "length cmd = 4" and n: "length payload \<le> 248"
  shows "extractPacketIntoMessages crc (drop 1 (buildPacket crc cmd payload))
           = Inr \<lparr> command = cmd, data = payload,
                   crc_field = Some (unat (crc (packet_body cmd payload @ [ETX]))) \<rparr>"
    and "verifyChecksum crc (drop 1 (buildPacket crc cmd payload))
           (Some (unat (crc (packet_body cmd payload @ [ETX])))) = Inr ()"
proof -
  let ?n = "length payload"
  let ?c = "unat (crc (packet_body cmd payload @ [ETX]))"
  let ?hi = "of_nat (?c div 256) :: byte" and ?lo = "of_nat ?c :: byte"
  let ?b = "of_nat (7 + ?n) :: byte"
  let ?pkt = "STX # pack_z 4 COMMAND_HEADER @ ?b # pack_z 4 cmd @ payload @ [?hi, ?lo] @ [ETX]"
  have pkt: "drop 1 (buildPacket crc cmd payload) = ?pkt"
    by (simp add: buildPacket_layout packet_body_def storeBEShort_def)
  have b: "unat ?b = 7 + ?n" using n unat_of_nat_byte [of "7 + ?n"] by simp
  have len: "length ?pkt = ?n + 13" by (simp add: length_pack_z)
  have hdr: "extractHeader ?pkt = Inr \<lparr> header = COMMAND_HEADER, size_field = Some (7 + ?n) \<rparr>"
    using extractHeader_packet [of ?b] b by simp
  have body: "STX # pack_z 4 COMMAND_HEADER @ ?b # pack_z 4 cmd @ payload = packet_body cmd payload"
    by (simp add: packet_body_def)
  have crcf: "extractBEShort ?pkt (10 + ?n) = Some ?c"
    using extractBEShort_at [of "10 + ?n" "packet_body cmd payload" ?hi ?lo "[ETX]"]
      length_packet_body [of cmd payload] BEShort_word [of "crc (packet_body cmd payload @ [ETX])"]
    by (simp add: packet_body_def)
  have resp: "unpack_response ?pkt (7 + ?n)
     = \<lparr> command = cmd, data = payload, crc_field = Some ?c \<rparr>"
    unfolding unpack_response_def
    using crcf unpack_z_command [OF c4] drop_10_packet by simp
  have spl: "splice_crc ?pkt = packet_body cmd payload @ [ETX]"
    using splice_crc_packet [of "packet_body cmd payload" ?hi ?lo ETX]
    by (simp add: packet_body_def)
  show v: "verifyChecksum crc (drop 1 (buildPacket crc cmd payload)) (Some ?c) = Inr ()"
    unfolding pkt verifyChecksum_def Let_def spl calcCRC_A_def by simp
  show "extractPacketIntoMessages crc (drop 1 (buildPacket crc cmd payload))
           = Inr \<lparr> command = cmd, data = payload, crc_field = Some ?c \<rparr>"
    using v unfolding pkt extractPacketIntoMessages_def hdr
    using resp len by (simp add: Let_def)
qed

text \<open>
  C3. For every 4-character command token and every payload of at most 248 bytes (so that
  the size 7 + length fits the size byte), decoding the packet made by \<^verbatim>\<open>buildPacket\<close>,
  without its leading report-length byte, gives back the same command token and the same
  payload bytes, and the checksum stored in the packet verifies.
\<close>

theorem buildPacket_roundtrip:
  assumes "length cmd = 4" and "length payload \<le> 248"
  shows "\<exists>c. extractPacketIntoMessages crc (drop 1 (buildPacket crc cmd payload))
                 = Inr \<lparr> command = cmd, data = payload, crc_field = Some c \<rparr>
             \<and> verifyChecksum crc (drop 1 (buildPacket crc cmd payload)) (Some c) = Inr ()"
  using buildPacket_decode [OF assms] by blast

theorem buildPacket_roundtrip_witness:
  "length ''RTIM'' = 4 \<and> length [1, 2, 3 :: byte] \<le> 248
   \<and> map_sum id (\<lambda>r. (command r, data r))
         (extractPacketIntoMessages zero_crc (drop 1 (buildPacket zero_crc ''RTIM'' [1, 2, 3])))
       = Inr (''RTIM'', [1, 2, 3])"
  using buildPacket_roundtrip [of "''RTIM''" "[1, 2, 3]" zero_crc]
  by auto

subsection \<open>The checksum exemption of glucose results\<close>

lemmas decode_eval = extractHeader_def unpack_response_def extractByte_def extractBEShort_def
  verifyChecksum_def calcCRC_A_def splice_crc_def COMMAND_HEADER_def COMMAND_GLUCOSE_RESULT_def
  unpack_z_def char_of_byte_def char_of_def bit_0

lemma extractPacket_glucose_no_checksum:
  "unpack_z bytes 6 4 = COMMAND_GLUCOSE_RESULT \<Longrightarrow>
   extractPacketIntoMessages crc bytes \<noteq> Inl ChecksumMismatch"
  by (auto simp: extractPacketIntoMessages_def extractHeader_def Let_def unpack_response_def
      split: sum.splits option.splits if_splits)

lemma extractPacket_complete:
  assumes "complete_packet bytes sz"
  shows "extractPacketIntoMessages crc bytes =
           (if command (unpack_response bytes sz) \<noteq> COMMAND_GLUCOSE_RESULT
               \<and> crc_field (unpack_response bytes sz)
                    \<noteq> Some (calcCRC_A crc (splice_crc bytes) (length (splice_crc bytes)))
            then Inl ChecksumMismatch
            else Inr (unpack_response bytes sz))"
  using assms
  by (simp add: complete_packet_def extractPacketIntoMessages_def Let_def verifyChecksum_def)

text \<open>
  C2. A packet whose command field is the glucose-result opcode never fails with a checksum
  mismatch, whatever its checksum field holds, and when it is complete it is accepted with
  the fields as they are. A complete packet with any other command whose stored checksum
  differs from the checksum recomputed over the packet without its two checksum bytes fails
  with the checksum mismatch.
\<close>

theorem glucose_result_checksum_exempt:
  "(unpack_z bytes 6 4 = COMMAND_GLUCOSE_RESULT \<longrightarrow>
      extractPacketIntoMessages crc bytes \<noteq> Inl ChecksumMismatch)
   \<and> (complete_packet bytes sz
        \<and> command (unpack_response bytes sz) = COMMAND_GLUCOSE_RESULT \<longrightarrow>
      extractPacketIntoMessages crc bytes = Inr (unpack_response bytes sz))
   \<and> (complete_packet bytes sz
        \<and> command (unpack_response bytes sz) \<noteq> COMMAND_GLUCOSE_RESULT
        \<and> crc_field (unpack_response bytes sz)
             \<noteq> Some (calcCRC_A crc (splice_crc bytes) (length (splice_crc bytes))) \<longrightarrow>
      extractPacketIntoMessages crc bytes = Inl ChecksumMismatch)"
  using extractPacket_glucose_no_checksum [of bytes crc] extractPacket_complete [of bytes sz crc]
  by simp

theorem glucose_result_checksum_exempt_witness:
  "complete_packet glue_packet 7
   \<and> command (unpack_response glue_packet 7) = COMMAND_GLUCOSE_RESULT
   \<and> crc_field (unpack_response glue_packet 7) = Some 65535
   \<and> calcCRC_A zero_crc (splice_crc glue_packet) (length (splice_crc glue_packet)) = 0
   \<and> extractPacketIntoMessages zero_crc glue_packet
        = Inr \<lparr> command = ''GLUE'', data = [], crc_field = Some 65535 \<rparr>
   \<and> complete_packet rtim_packet 7
   \<and> command (unpack_response rtim_packet 7) = ''RTIM''
   \<and> crc_field (unpack_response rtim_packet 7) = Some 65535
   \<and> calcCRC_A zero_crc (splice_crc rtim_packet) (length (splice_crc rtim_packet)) = 0
   \<and> extractPacketIntoMessages zero_crc rtim_packet = Inl ChecksumMismatch"
  using glucose_result_checksum_exempt [of glue_packet zero_crc 7]
    glucose_result_checksum_exempt [of rtim_packet zero_crc 7]
  by (simp add: complete_packet_def glue_packet_def rtim_packet_def zero_crc_def decode_eval)

subsection \<open>The ping handshake\<close>

declare ping.simps [simp del]

lemma ping_empty_step:
  "t (received s) = [] \<Longrightarrow> retries s \<le> 3 \<Longrightarrow>
   ping t s = ping t (s\<lparr>retries := retries s + 1, received := received s + 1,
                         trace := trace s @ probe_round\<rparr>)"
  by (subst ping.simps, cases s) (simp add: sendPromisified_def receiveTimeout_def probe_round_def)

lemma ping_empty_last:
  "t (received s) = [] \<Longrightarrow> \<not> retries s \<le> 3 \<Longrightarrow>
   ping t s = (Some DeviceNotResponding,
               s\<lparr>received := received s + 1, trace := trace s @ probe_round\<rparr>)"
  by (subst ping.simps, cases s) (simp add: sendPromisified_def receiveTimeout_def probe_round_def)

lemma ping_nonempty:
  "t (received s) \<noteq> [] \<Longrightarrow>
   ping t s = (None, s\<lparr>retries := 0, received := received s + 1, trace := trace s @ probe_round\<rparr>)"
  by (subst ping.simps, cases s) (simp add: sendPromisified_def receiveTimeout_def probe_round_def)

lemma ping_all_empty:
  "\<forall>k. t (received s + k) = [] \<Longrightarrow> retries s + n = 4 \<Longrightarrow>
   ping t s = (Some DeviceNotResponding,
               s\<lparr>retries := 4, received := received s + (n + 1),
                 trace := trace s @ concat (replicate (n + 1) probe_round)\<rparr>)"
proof (induction n arbitrary: s)
  case 0
  then have "t (received s) = []" by (metis add.right_neutral)
  with 0 show ?case by (simp add: ping_empty_last)
next
  case (Suc n)
  let ?s = "s\<lparr>retries := retries s + 1, received := received s + 1, trace := trace s @ probe_round\<rparr>"
  from Suc.prems have e: "t (received s) = []" by (metis add.right_neutral)
  have "\<forall>k. t (received ?s + k) = []"
  proof
    fix k show "t (received ?s + k) = []" using Suc.prems(1) [rule_format, of "Suc k"] by simp
  qed
  moreover have "retries ?s + n = 4" using Suc.prems by simp
  ultimately have "ping t ?s = (Some DeviceNotResponding,
               ?s\<lparr>retries := 4, received := received ?s + (n + 1),
                 trace := trace ?s @ concat (replicate (n + 1) probe_round)\<rparr>)"
    by (rule Suc.IH)
  moreover have "ping t s = ping t ?s" using e Suc.prems by (simp add: ping_empty_step)
  ultimately show ?case by simp
qed

lemma ping_first_answer:
  "\<forall>k<j. t (received s + k) = [] \<Longrightarrow> t (received s + j) \<noteq> [] \<Longrightarrow> retries s + j \<le> 4 \<Longrightarrow>
   ping t s = (None,
               s\<lparr>retries := 0, received := received s + (j + 1),
                 trace := trace s @ concat (replicate (j + 1) probe_round)\<rparr>)"
proof (induction j arbitrary: s)
  case 0
  then show ?case by (simp add: ping_nonempty)
next
  case (Suc j)
  let ?s = "s\<lparr>retries := retries s + 1, received := received s + 1, trace := trace s @ probe_round\<rparr>"
  from Suc.prems have e: "t (received s) = []" by (metis add.right_neutral zero_less_Suc)
  have "\<forall>k<j. t (received ?s + k) = []"
  proof (intro allI impI)
    fix k assume "k < j" then show "t (received ?s + k) = []"
      using Suc.prems(1) [rule_format, of "Suc k"] by simp
  qed
  moreover have "t (received ?s + j) \<noteq> []" using Suc.prems(2) by simp
  moreover have "retries ?s + j \<le> 4" using Suc.prems by simp
  ultimately have "ping t ?s = (None,
               ?s\<lparr>retries := 0, received := received ?s + (j + 1),
                 trace := trace ?s @ concat (replicate (j + 1) probe_round)\<rparr>)"
    by (rule Suc.IH)
  moreover have "ping t s = ping t ?s" using e Suc.prems by (simp add: ping_empty_step)
  ultimately show ?case by simp
qed

text \<open>
  C4, as the claim states it, fails: on a transport whose every receive times out, a driver
  fresh from its constructor sends five probes, not four, before it gives up.
\<close>

theorem ping_four_attempts_counterexample:
  "fst (ping silent driver_init) = Some DeviceNotResponding
   \<and> probes (snd (ping silent driver_init)) = 5
   \<and> probes (snd (ping silent driver_init)) \<noteq> 4"
proof -
  have "\<forall>k. silent (received driver_init + k) = []" by (simp add: silent_def)
  moreover have "retries driver_init + 4 = 4" by (simp add: driver_init_def)
  ultimately have "ping silent driver_init = (Some DeviceNotResponding,
      driver_init\<lparr>retries := 4, received := received driver_init + (4 + 1),
        trace := trace driver_init @ concat (replicate (4 + 1) probe_round)\<rparr>)"
    by (rule ping_all_empty)
  then show ?thesis
    by (simp add: driver_init_def probes_def probe_round_def numeral_eq_Suc)
qed

text \<open>
  C4, amended. The probe is the two bytes 0x01 0x80. Starting with the retry counter at 0,
  when every receive times out \<^verbatim>\<open>ping\<close> makes five attempts in total (the first and four
  retries), each a probe followed by one receive with the read timeout and nothing else
  between them, and then fails with "Device not responding", the counter left at 4. When
  the first non-empty response comes at one of these five attempts, \<^verbatim>\<open>ping\<close> succeeds after
  that attempt and the retry counter is 0.
\<close>

theorem ping_attempts:
  "(retries s = 0 \<and> (\<forall>k. t (received s + k) = []) \<longrightarrow>
      ping t s = (Some DeviceNotResponding,
                  s\<lparr>retries := 4, received := received s + 5,
                    trace := trace s @ concat (replicate 5 probe_round)\<rparr>))
   \<and> (retries s = 0 \<and> j \<le> 4 \<and> (\<forall>k<j. t (received s + k) = []) \<and> t (received s + j) \<noteq> [] \<longrightarrow>
      ping t s = (None,
                  s\<lparr>retries := 0, received := received s + (j + 1),
                    trace := trace s @ concat (replicate (j + 1) probe_round)\<rparr>))"
proof (intro conjI impI)
  assume "retries s = 0 \<and> (\<forall>k. t (received s + k) = [])"
  then show "ping t s = (Some DeviceNotResponding,
                  s\<lparr>retries := 4, received := received s + 5,
                    trace := trace s @ concat (replicate 5 probe_round)\<rparr>)"
    using ping_all_empty [of t s 4] by simp
next
  assume "retries s = 0 \<and> j \<le> 4 \<and> (\<forall>k<j. t (received s + k) = []) \<and> t (received s + j) \<noteq> []"
  then show "ping t s = (None,
                  s\<lparr>retries := 0, received := received s + (j + 1),
                    trace := trace s @ concat (replicate (j + 1) probe_round)\<rparr>)"
    using ping_first_answer [of j t s] by simp
qed

theorem ping_attempts_witness:
  "ping silent driver_init
     = (Some DeviceNotResponding,
        \<lparr> retries = 4, received = 5,
          trace = [Sent [0x01, 0x80], ReceiveTimeout 2000, Sent [0x01, 0x80], ReceiveTimeout 2000,
                   Sent [0x01, 0x80], ReceiveTimeout 2000, Sent [0x01, 0x80], ReceiveTimeout 2000,
                   Sent [0x01, 0x80], ReceiveTimeout 2000] \<rparr>)
   \<and> ping answers_third driver_init
     = (None,
        \<lparr> retries = 0, received = 3,
          trace = [Sent [0x01, 0x80], ReceiveTimeout 2000, Sent [0x01, 0x80], ReceiveTimeout 2000,
                   Sent [0x01, 0x80], ReceiveTimeout 2000] \<rparr>)"
proof -
  have a: "retries driver_init = 0 \<and> (\<forall>k. silent (received driver_init + k) = [])"
    by (simp add: driver_init_def silent_def)
  have b: "retries driver_init = 0 \<and> (2::nat) \<le> 4
           \<and> (\<forall>k<2. answers_third (received driver_init + k) = [])
           \<and> answers_third (received driver_init + 2) \<noteq> []"
    by (simp add: driver_init_def answers_third_def)
  show ?thesis
    using a b ping_attempts [of driver_init silent 2] ping_attempts [of driver_init answers_third 2]
    by (simp add: driver_init_def probe_round_def READ_TIMEOUT_def numeral_eq_Suc)
qed

subsection \<open>Processing the records\<close>

lemma bg_callback_eq:
  "bg_callback r i d =
     (if \<not> is_control r \<and> \<not> is_ketone r
      then d\<lparr>post_records := post_records d @ [smbg_of r]\<rparr> else d)"
  by (cases "bg_value_annotation r")
     (simp add: bg_callback_def is_control_def is_ketone_def smbg_of_def Let_def makeRecord_def
       with_value_def with_units_def with_deviceTime_def set_index_def annotateEvent_def
       delete_index_def split: option.split)

lemma ketone_callback_eq:
  "ketone_callback r i d =
     (if is_ketone r \<and> \<not> is_control r
      then d\<lparr>post_records := post_records d @ [ketone_of r]\<rparr> else d)"
  by (cases "ketone_value_annotation r")
     (simp add: ketone_callback_def is_control_def is_ketone_def ketone_of_def Let_def makeRecord_def
       with_value_def with_units_def with_deviceTime_def set_index_def annotateEvent_def
       delete_index_def split: option.split)

lemma forEach_bg:
  "forEach bg_callback i rs d =
     d\<lparr>post_records := post_records d
          @ map smbg_of (filter (\<lambda>r. \<not> is_control r \<and> \<not> is_ketone r) rs)\<rparr>"
  by (induction rs arbitrary: i d) (simp_all add: bg_callback_eq)

lemma forEach_ketone:
  "forEach ketone_callback i rs d =
     d\<lparr>post_records := post_records d
          @ map ketone_of (filter (\<lambda>r. is_ketone r \<and> \<not> is_control r) rs)\<rparr>"
  by (induction rs arbitrary: i d) (simp_all add: ketone_callback_eq)

lemma processData_post_records:
  "post_records (snd (processData d)) =
     map smbg_of (filter (\<lambda>r. \<not> is_control r \<and> \<not> is_ketone r) (records d))
     @ map ketone_of (filter (\<lambda>r. is_ketone r \<and> \<not> is_control r) (records d))"
  by (simp add: processData_def Let_def buildBGRecords_def buildKetoneRecords_def
      forEach_bg forEach_ketone)

lemma count_partition:
  "length (filter (\<lambda>r. \<not> is_control r \<and> \<not> is_ketone r) rs)
     + length (filter (\<lambda>r. is_ketone r \<and> \<not> is_control r) rs)
   = length rs - length (filter is_control rs)"
proof (induction rs)
  case Nil then show ?case by simp
next
  case (Cons r rs)
  have "length (filter is_control rs) \<le> length rs" by (rule length_filter_le)
  with Cons show ?case by (auto simp: Suc_diff_le)
qed

lemmas flag_eval = hasFlag_def FLAGS_HI_def FLAGS_LO_def FLAGS_KETONE_def
  FLAGS_CONTROL_SOLUTION_def is_control_def is_ketone_def

text \<open>
  C7. The out-of-range substitution of \<^verbatim>\<open>buildBGRecords\<close> takes the first match, HI before
  LO: with the HI flag set (whether or not LO is set too) the value is 601 and the
  annotation is bg/out-of-range, high, threshold 600; otherwise with the LO flag set the
  value is 19 and the annotation is bg/out-of-range, low, threshold 20; otherwise the raw
  integer value is used as it is, with no annotation. The record pushed for a reading that
  is neither a control-solution test nor a ketone reading carries that value and that
  annotation.
\<close>

theorem bg_flag_precedence:
  "(hasFlag FLAGS_HI (flags r) \<longrightarrow>
      bg_value_annotation r
        = (601, Some \<lparr> code = ''bg/out-of-range'', threshold_side = ''high'', threshold = 600 \<rparr>))
   \<and> (\<not> hasFlag FLAGS_HI (flags r) \<and> hasFlag FLAGS_LO (flags r) \<longrightarrow>
      bg_value_annotation r
        = (19, Some \<lparr> code = ''bg/out-of-range'', threshold_side = ''low'', threshold = 20 \<rparr>))
   \<and> (\<not> hasFlag FLAGS_HI (flags r) \<and> \<not> hasFlag FLAGS_LO (flags r) \<and> raw_value r = Some v \<longrightarrow>
      bg_value_annotation r = (of_nat v, None))
   \<and> (\<not> is_control r \<and> \<not> is_ketone r \<longrightarrow>
      post_records (bg_callback r i d)
        = post_records d
          @ [\<lparr> record_type = SMBG, post_value = fst (bg_value_annotation r), units = ''mg/dL'',
                deviceTime = jsDate r, index = None,
                annotations = (case snd (bg_value_annotation r) of None \<Rightarrow> [] | Some a \<Rightarrow> [a]) \<rparr>])"
  using bg_callback_eq [of r i d]
  by (simp add: bg_value_annotation_def toInteger_def smbg_of_def)

theorem bg_flag_precedence_witness:
  "hasFlag FLAGS_HI (flags (sample_record 0x0C 0)) \<and> hasFlag FLAGS_LO (flags (sample_record 0x0C 0))
   \<and> bg_value_annotation (sample_record 0x0C 0)
        = (601, Some \<lparr> code = ''bg/out-of-range'', threshold_side = ''high'', threshold = 600 \<rparr>)
   \<and> bg_value_annotation (sample_record 0x04 0)
        = (19, Some \<lparr> code = ''bg/out-of-range'', threshold_side = ''low'', threshold = 20 \<rparr>)
   \<and> bg_value_annotation (sample_record 0x00 105) = (105, None)
   \<and> map post_value (post_records (bg_callback (sample_record 0x0C 0) 3 sample_data)) = [601]"
  using bg_flag_precedence [of "sample_record 0x0C 0" 0 3 sample_data]
    bg_flag_precedence [of "sample_record 0x04 0" 0 0 sample_data]
    bg_flag_precedence [of "sample_record 0x00 105" 105 0 sample_data]
  by (simp add: sample_record_def sample_data_def flag_eval)

text \<open>
  C8. Of N raw records of which K have the control-solution flag, processing leaves exactly
  N - K records to upload: a record with the control-solution flag gives none, whatever its
  other flags; any other record gives exactly one, a ketone record when its KETONE flag is
  set and a glucose record otherwise.
\<close>

theorem control_solution_filtered:
  "length (post_records (snd (processData d)))
     = length (records d) - length (filter is_control (records d))
   \<and> post_records (snd (processData (d\<lparr>records := [r]\<rparr>)))
     = (if is_control r then [] else if is_ketone r then [ketone_of r] else [smbg_of r])"
  using count_partition [of "records d"]
  by (simp add: processData_post_records)

theorem control_solution_filtered_witness:
  "length (records sample_data) = 4 \<and> length (filter is_control (records sample_data)) = 1
   \<and> length (post_records (snd (processData sample_data))) = 3
   \<and> post_records (snd (processData (sample_data\<lparr>records := [sample_record 0x41 12]\<rparr>))) = []"
  using control_solution_filtered [of sample_data "sample_record 0x41 12"]
  by (simp add: sample_data_def sample_record_def flag_eval)

text \<open>
  C9. No record that processing leaves to upload has an index: the fetch-order index set
  on the builder is deleted from the record before it is pushed.
\<close>

theorem index_not_uploaded:
  "\<forall>p \<in> set (post_records (snd (processData d))). index p = None"
  by (auto simp: processData_post_records smbg_of_def ketone_of_def)

theorem index_not_uploaded_witness:
  "map index (post_records (snd (processData sample_data))) = [None, None, None]"
  using index_not_uploaded [of sample_data]
  by (simp add: processData_post_records sample_data_def sample_record_def flag_eval
      smbg_of_def ketone_of_def)

text \<open>
  C10. Processing leaves the records to upload grouped by type and not in fetch order:
  first the glucose records (neither ketone nor control solution), in fetch order among
  themselves, then the ketone records, in fetch order among themselves.
\<close>

theorem glucose_before_ketone:
  "post_records (snd (processData d)) =
     map smbg_of (filter (\<lambda>r. \<not> is_control r \<and> \<not> is_ketone r) (records d))
     @ map ketone_of (filter (\<lambda>r. is_ketone r \<and> \<not> is_control r) (records d))"
  by (rule processData_post_records)

theorem glucose_before_ketone_witness:
  "map (\<lambda>r. (flags r, raw_value r)) (records sample_data)
     = [(Some 0x40, Some 12), (Some 0x00, Some 105), (Some 0x01, Some 98), (Some 0x0C, Some 0)]
   \<and> map (\<lambda>p. (record_type p, post_value p)) (post_records (snd (processData sample_data)))
     = [(SMBG, 105), (SMBG, 601), (BloodKetone, 12 / 10)]"
  using glucose_before_ketone [of sample_data]
  by (simp add: sample_data_def sample_record_def flag_eval smbg_of_def ketone_of_def
      bg_value_annotation_def ketone_value_annotation_def toInteger_def KETONE_VALUE_FACTOR_def)

subsection \<open>Fetching the records\<close>

declare getRecords_loop.simps [simp del]

lemma read_records_eq:
  "read_records bytes ctr c recs = recs @ map (\<lambda>i. unpack_record bytes (ctr + 9 * i)) [0..<c]"
proof (induction c arbitrary: ctr recs)
  case 0
  then show ?case by simp
next
  case (Suc c)
  have "map (\<lambda>i. unpack_record bytes (ctr + 9 * i)) [0..<Suc c]
        = unpack_record bytes ctr # map (\<lambda>i. unpack_record bytes (ctr + 9 + 9 * i)) [0..<c]"
    by (simp add: upt_conv_Cons map_Suc_upt [symmetric] add.assoc del: upt_Suc)
  with Suc.IH [of "ctr + 9" "recs @ [unpack_record bytes ctr]"] show ?case by simp
qed

lemma read_records_page: "read_records bytes 0 c recs = recs @ page_records bytes c"
  by (simp add: read_records_eq page_records_def)

lemma store_request:
  "store_bytes (replicate 3 0) 0 (storeBEShort s @ [c]) = storeBEShort s @ [c]"
  by (simp add: store_bytes_def storeBEShort_def)

lemma loop_continues_iff: "1 + 27 * j \<le> n \<longleftrightarrow> j < page_count n"
  by (auto simp: page_count_def)

lemma getRecords_loop_pages:
  "m = page_count n - j \<Longrightarrow>
   (\<And>k. j \<le> k \<Longrightarrow> k < page_count n \<Longrightarrow>
      cr (length calls + (k - j)) COMMAND_GLUCOSE_RESULT (snd (page_request n k))
        = Some (Inr (rsp k))) \<Longrightarrow>
   getRecords_loop cr calls (1 + 27 * j) n recs =
     Some (Inr (recs @ concat (map (\<lambda>k. page_records (data (rsp k)) (page_size n k))
                                [j..<page_count n])),
           calls @ map (page_request n) [j..<page_count n])"
proof (induction m arbitrary: j calls recs)
  case 0
  then have "\<not> 1 + 27 * j \<le> n" using loop_continues_iff [of j n] by simp
  moreover have "page_count n \<le> j" using 0 by simp
  ultimately show ?case by (subst getRecords_loop.simps) simp
next
  case (Suc m)
  then have lt: "j < page_count n" by simp
  then have c: "1 + 27 * j \<le> n" using loop_continues_iff [of j n] by simp
  let ?req = "page_request n j"
  have m': "m = page_count n - Suc j" using Suc.prems by simp
  have ex: "cr (length calls) COMMAND_GLUCOSE_RESULT (snd ?req) = Some (Inr (rsp j))"
    using Suc.prems(2) [of j] lt by simp
  have step: "getRecords_loop cr calls (1 + 27 * j) n recs
        = getRecords_loop cr (calls @ [?req]) (1 + 27 * Suc j) n
            (recs @ page_records (data (rsp j)) (page_size n j))"
    using c ex
    by (subst getRecords_loop.simps)
       (simp add: Let_def store_request page_request_def page_size_def read_records_page)
  have rest: "cr (length (calls @ [?req]) + (k - Suc j)) COMMAND_GLUCOSE_RESULT
                (snd (page_request n k)) = Some (Inr (rsp k))"
    if "Suc j \<le> k" and "k < page_count n" for k
  proof -
    have "length (calls @ [?req]) + (k - Suc j) = length calls + (k - j)" using that by simp
    then show ?thesis using Suc.prems(2) [of k] that by simp
  qed
  have split: "[j..<page_count n] = j # [Suc j..<page_count n]"
    using lt by (rule upt_conv_Cons)
  show ?case
    unfolding step split using Suc.IH [OF m' rest] by simp
qed

lemma page_count_bound: "n \<le> 27 * page_count n"
  by (simp add: page_count_def)

lemma page_size_sum_from:
  "m = page_count n - j \<Longrightarrow>
   sum_list (map (\<lambda>k. page_size n (j + k)) [0..<page_count n - j]) = n - 27 * j"
proof (induction m arbitrary: j)
  case 0
  then have "page_count n \<le> j" by simp
  then have "n \<le> 27 * j" using page_count_bound [of n] by simp
  with 0 show ?case by simp
next
  case (Suc m)
  then have lt: "j < page_count n" by simp
  then have c: "1 + 27 * j \<le> n" using loop_continues_iff [of j n] by simp
  have m': "m = page_count n - Suc j" using Suc.prems by simp
  have split: "[0..<page_count n - j] = 0 # map Suc [0..<page_count n - Suc j]"
    using lt by (metis Suc_diff_Suc map_Suc_upt upt_conv_Cons zero_less_Suc)
  have "page_size n j + (n - 27 * Suc j) = n - 27 * j"
    using c by (auto simp: page_size_def)
  then show ?case
    unfolding split using Suc.IH [OF m'] by (simp add: comp_def)
qed

lemma length_page_records: "length (page_records bytes c) = c"
  by (simp add: page_records_def)

lemma length_all_pages:
  "length (concat (map (\<lambda>k. page_records (d k) (page_size n k)) [0..<page_count n])) = n"
  using page_size_sum_from [of "page_count n" n 0]
  by (simp add: length_concat comp_def length_page_records)

lemma page_size_full: "k + 1 < page_count n \<Longrightarrow> page_size n k = 27"
  using loop_continues_iff [of "k + 1" n] by (simp add: page_size_def)

lemma page_size_last: "k + 1 = page_count n \<Longrightarrow> 1 \<le> page_size n k \<and> page_size n k \<le> 27"
  by (simp add: page_size_def)

lemma page_request_decode:
  assumes "n < 65536" and "k < page_count n"
  shows "extractBEShort (snd (page_request n k)) 0 = Some (1 + 27 * k)"
    and "extractByte (snd (page_request n k)) 2 = Some (page_size n k)"
proof -
  have "1 + 27 * k \<le> n" using assms(2) loop_continues_iff [of k n] by simp
  then have s: "1 + 27 * k < 65536" using assms(1) by simp
  have "unat (of_nat ((1 + 27 * k) div 256) :: byte) * 256 + unat (of_nat (1 + 27 * k) :: byte)
          = 1 + 27 * k"
    using s by (rule BEShort_roundtrip)
  then show "extractBEShort (snd (page_request n k)) 0 = Some (1 + 27 * k)"
    by (simp add: page_request_def extractBEShort_def storeBEShort_def)
  have "page_size n k \<le> 27" by (simp add: page_size_def)
  then have "unat (of_nat (page_size n k) :: byte) = page_size n k"
    by (simp add: unat_of_nat_byte)
  then show "extractByte (snd (page_request n k)) 2 = Some (page_size n k)"
    by (simp add: page_request_def extractByte_def storeBEShort_def)
qed

lemma extractBEShort_bound: "extractBEShort bytes off = Some v \<Longrightarrow> v < 65536"
proof -
  have "unat (a :: byte) * 256 + unat (b :: byte) < 65536" for a b
    using unsigned_less [of a, where ?'a = nat] unsigned_less [of b, where ?'a = nat] by simp
  then show "extractBEShort bytes off = Some v \<Longrightarrow> v < 65536"
    by (auto simp: extractBEShort_def split: if_splits)
qed

lemma getNumberOfRecords_bound:
  "getNumberOfRecords cr calls = Some (Inr (Some n), calls') \<Longrightarrow> n < 65536"
  by (auto simp: getNumberOfRecords_def dest: extractBEShort_bound
      split: option.splits sum.splits)

lemma unpack_record_in_range:
  assumes "ctr + 9 \<le> length bytes"
  shows "unpack_record bytes ctr =
     \<lparr> year = Some (unat (bytes ! ctr) + 2000),
       month = Some (unat (bytes ! (ctr + 1))),
       day = Some (unat (bytes ! (ctr + 2))),
       hours = Some (unat (bytes ! (ctr + 3))),
       minutes = Some (unat (bytes ! (ctr + 4))),
       seconds = Some (unat (bytes ! (ctr + 5))),
       flags = Some (unat (bytes ! (ctr + 6))),
       raw_value = Some (unat (bytes ! (ctr + 7)) * 256 + unat (bytes ! (ctr + 8))),
       jsDate = [Some (unat (bytes ! ctr) + 2000), Some (unat (bytes ! (ctr + 1))),
                 Some (unat (bytes ! (ctr + 2))), Some (unat (bytes ! (ctr + 3))),
                 Some (unat (bytes ! (ctr + 4))), Some (unat (bytes ! (ctr + 5)))] \<rparr>"
  using assms
  by (simp add: unpack_record_def extractByte_def extractBEShort_def Let_def ac_simps)

lemma unpack_record_past_end:
  assumes "length bytes \<le> ctr"
  shows "unpack_record bytes ctr =
     \<lparr> year = None, month = None, day = None, hours = None, minutes = None, seconds = None,
       flags = None, raw_value = None, jsDate = [None, None, None, None, None, None] \<rparr>"
  using assms
  by (simp add: unpack_record_def extractByte_def extractBEShort_def Let_def)

lemma page_records_nth: "i < c \<Longrightarrow> page_records bytes c ! i = unpack_record bytes (9 * i)"
  by (simp add: page_records_def)

lemma page_size_cases:
  "j < page_count n \<Longrightarrow> page_size n j = (if n - 27 * j \<ge> 28 then 27 else n - 27 * j)"
  using loop_continues_iff [of j n] by (auto simp: page_size_def)

lemma pages_nth_from:
  "m = page_count n - j \<Longrightarrow> i < n - 27 * j \<Longrightarrow>
   concat (map (\<lambda>k. page_records (d k) (page_size n k)) [j..<page_count n]) ! i
     = unpack_record (d (j + i div 27)) (9 * (i mod 27))"
proof (induction m arbitrary: j i)
  case 0
  then have "page_count n \<le> j" by simp
  then have "n \<le> 27 * j" using page_count_bound [of n] by simp
  with 0 show ?case by simp
next
  case (Suc m)
  then have lt: "j < page_count n" by simp
  have m': "m = page_count n - Suc j" using Suc.prems by simp
  have split: "[j..<page_count n] = j # [Suc j..<page_count n]"
    using lt by (rule upt_conv_Cons)
  let ?rest = "concat (map (\<lambda>k. page_records (d k) (page_size n k)) [Suc j..<page_count n])"
  have c: "concat (map (\<lambda>k. page_records (d k) (page_size n k)) [j..<page_count n])
             = page_records (d j) (page_size n j) @ ?rest"
    unfolding split by simp
  show ?case
  proof (cases "i < page_size n j")
    case True
    then have "i < 27" using page_size_cases [OF lt] by (simp split: if_splits)
    with True show ?thesis
      unfolding c by (simp add: nth_append length_page_records page_records_nth)
  next
    case False
    then have ps: "page_size n j = 27" and i: "27 \<le> i"
      using page_size_cases [OF lt] Suc.prems(2) by (auto split: if_splits)
    have e1: "Suc j + (i - 27) div 27 = j + i div 27"
      using i le_div_geq [of 27 i] by simp
    have e2: "(i - 27) mod 27 = i mod 27"
      using i le_mod_geq [of 27 i] by simp
    have "i - 27 < n - 27 * Suc j" using Suc.prems(2) i by simp
    from Suc.IH [OF m' this]
    have r: "?rest ! (i - 27) = unpack_record (d (j + i div 27)) (9 * (i mod 27))"
      unfolding e1 e2 .
    show ?thesis
      unfolding c using i ps r by (simp add: nth_append length_page_records)
  qed
qed

lemma pages_nth:
  "i < n \<Longrightarrow>
   concat (map (\<lambda>k. page_records (d k) (page_size n k)) [0..<page_count n]) ! i
     = unpack_record (d (i div 27)) (9 * (i mod 27))"
  using pages_nth_from [of "page_count n" n 0 i d] by simp


text \<open>
  C6. When every exchange it makes succeeds, \<^verbatim>\<open>getRecords\<close> for a count \<open>n\<close> makes
  \<open>(n + 26) div 27\<close> glucose-result exchanges, in this order: exchange \<open>k\<close> (from 0) asks
  for the records from start index \<open>1 + 27 k\<close> (1, 28, 55, ...), 27 of them on every page
  but the last, which asks for between 1 and 27; from each response it decodes that many
  records of 9 bytes each, and it returns them in the order of the requests, \<open>n\<close> records
  in all: record \<open>i\<close> (from 0) is decoded from the response of exchange \<open>i div 27\<close> at
  offset \<open>9 (i mod 27)\<close>. A record decoded at an offset is the year byte plus 2000, the
  month, day, hours, minutes, seconds and flags bytes, and the value of two bytes, high byte
  first; a record that starts beyond the end of the response has no field defined. The count
  that the index query gives is below 65536, so the start index fits the two bytes of the
  request.
\<close>

theorem getRecords_pagination:
  assumes "\<And>k. k < page_count n \<Longrightarrow>
             cr (length calls + k) COMMAND_GLUCOSE_RESULT (snd (page_request n k))
               = Some (Inr (rsp k))"
  shows "getRecords cr calls n
           = Some (Inr (concat (map (\<lambda>k. page_records (data (rsp k)) (page_size n k))
                                 [0..<page_count n])),
                   calls @ map (page_request n) [0..<page_count n])
         \<and> length (concat (map (\<lambda>k. page_records (data (rsp k)) (page_size n k))
                              [0..<page_count n])) = n
         \<and> (\<forall>i. i < n \<longrightarrow>
               concat (map (\<lambda>k. page_records (data (rsp k)) (page_size n k))
                         [0..<page_count n]) ! i
                 = unpack_record (data (rsp (i div 27))) (9 * (i mod 27)))
         \<and> (\<forall>bytes ctr. ctr + 9 \<le> length bytes \<longrightarrow>
               unpack_record bytes ctr =
                 \<lparr> year = Some (unat (bytes ! ctr) + 2000),
                   month = Some (unat (bytes ! (ctr + 1))),
                   day = Some (unat (bytes ! (ctr + 2))),
                   hours = Some (unat (bytes ! (ctr + 3))),
                   minutes = Some (unat (bytes ! (ctr + 4))),
                   seconds = Some (unat (bytes ! (ctr + 5))),
                   flags = Some (unat (bytes ! (ctr + 6))),
                   raw_value = Some (unat (bytes ! (ctr + 7)) * 256 + unat (bytes ! (ctr + 8))),
                   jsDate = [Some (unat (bytes ! ctr) + 2000), Some (unat (bytes ! (ctr + 1))),
                             Some (unat (bytes ! (ctr + 2))), Some (unat (bytes ! (ctr + 3))),
                             Some (unat (bytes ! (ctr + 4))), Some (unat (bytes ! (ctr + 5)))] \<rparr>)
         \<and> (\<forall>bytes ctr. length bytes \<le> ctr \<longrightarrow>
               unpack_record bytes ctr =
                 \<lparr> year = None, month = None, day = None, hours = None, minutes = None,
                   seconds = None, flags = None, raw_value = None,
                   jsDate = [None, None, None, None, None, None] \<rparr>)
         \<and> (\<forall>k. k + 1 < page_count n \<longrightarrow> page_size n k = 27)
         \<and> (\<forall>k. k + 1 = page_count n \<longrightarrow> 1 \<le> page_size n k \<and> page_size n k \<le> 27)
         \<and> (\<forall>k. n < 65536 \<and> k < page_count n \<longrightarrow>
               extractBEShort (snd (page_request n k)) 0 = Some (1 + 27 * k)
               \<and> extractByte (snd (page_request n k)) 2 = Some (page_size n k))
         \<and> (\<forall>cr' calls' calls'' n'.
               getNumberOfRecords cr' calls' = Some (Inr (Some n'), calls'') \<longrightarrow> n' < 65536)"
proof -
  have "getRecords_loop cr calls (1 + 27 * 0) n []
          = Some (Inr ([] @ concat (map (\<lambda>k. page_records (data (rsp k)) (page_size n k))
                                      [0..<page_count n])),
                  calls @ map (page_request n) [0..<page_count n])"
    by (rule getRecords_loop_pages [of "page_count n" n 0]) (simp_all add: assms)
  then have a: "getRecords cr calls n
           = Some (Inr (concat (map (\<lambda>k. page_records (data (rsp k)) (page_size n k))
                                 [0..<page_count n])),
                   calls @ map (page_request n) [0..<page_count n])"
    by (simp add: getRecords_def)
  note b = length_all_pages [of "\<lambda>k. data (rsp k)" n]
  have c: "\<forall>i. i < n \<longrightarrow>
               concat (map (\<lambda>k. page_records (data (rsp k)) (page_size n k))
                         [0..<page_count n]) ! i
                 = unpack_record (data (rsp (i div 27))) (9 * (i mod 27))"
    using pages_nth [of _ n "\<lambda>k. data (rsp k)"] by simp
  have d: "\<forall>k. k + 1 < page_count n \<longrightarrow> page_size n k = 27"
    using page_size_full [of _ n] by simp
  have e: "\<forall>k. k + 1 = page_count n \<longrightarrow> 1 \<le> page_size n k \<and> page_size n k \<le> 27"
    using page_size_last [of _ n] by simp
  have f: "\<forall>k. n < 65536 \<and> k < page_count n \<longrightarrow>
               extractBEShort (snd (page_request n k)) 0 = Some (1 + 27 * k)
               \<and> extractByte (snd (page_request n k)) 2 = Some (page_size n k)"
    using page_request_decode [of n] by simp
  have g: "\<forall>cr' calls' calls'' n'.
               getNumberOfRecords cr' calls' = Some (Inr (Some n'), calls'') \<longrightarrow> n' < 65536"
    using getNumberOfRecords_bound by blast
  show ?thesis
    using a b c d e f g unpack_record_in_range unpack_record_past_end
    by (intro conjI allI impI) blast+
qed

theorem getRecords_pagination_witness:
  "page_count 30 = 2 \<and> page_size 30 0 = 27 \<and> page_size 30 1 = 3
   \<and> map_option (map_prod (map_sum id length) id) (getRecords sample_exchange [] 30)
       = Some (Inr 30, [(''GLUE'', [0, 1, 27]), (''GLUE'', [0, 28, 3])])
   \<and> getRecords two_record_exchange [] 2
       = Some (Inr [\<lparr> year = Some 2020, month = Some 5, day = Some 17, hours = Some 8,
                      minutes = Some 30, seconds = Some 0, flags = Some 8,
                      raw_value = Some 601,
                      jsDate = [Some 2020, Some 5, Some 17, Some 8, Some 30, Some 0] \<rparr>,
                    \<lparr> year = Some 2020, month = Some 5, day = Some 18, hours = Some 7,
                      minutes = Some 15, seconds = Some 30, flags = Some 64,
                      raw_value = Some 12,
                      jsDate = [Some 2020, Some 5, Some 18, Some 7, Some 15, Some 30] \<rparr>],
               [(''GLUE'', [0, 1, 2])])"
proof -
  have "sample_exchange (length [] + k) COMMAND_GLUCOSE_RESULT (snd (page_request 30 k))
          = Some (Inr \<lparr> command = ''GLUE'', data = replicate 243 (of_nat k), crc_field = None \<rparr>)"
    for k
    by (simp add: sample_exchange_def COMMAND_GLUCOSE_RESULT_def)
  note a = getRecords_pagination [of 30 sample_exchange "[]", OF this]
  have "two_record_exchange (length [] + k) COMMAND_GLUCOSE_RESULT (snd (page_request 2 k))
          = Some (Inr \<lparr> command = ''GLUE'',
                        data = [20, 5, 17, 8, 30, 0, 0x08, 0x02, 0x59,
                                20, 5, 18, 7, 15, 30, 0x40, 0x00, 0x0C],
                        crc_field = None \<rparr>)"
    for k
    by (simp add: two_record_exchange_def COMMAND_GLUCOSE_RESULT_def)
  note b = getRecords_pagination [of 2 two_record_exchange "[]", OF this]
  have p30: "page_count 30 = 2" "page_size 30 0 = 27" "page_size 30 1 = 3"
    by (simp_all add: page_count_def page_size_def)
  have p2: "page_count 2 = 1" "page_size 2 0 = 2"
    by (simp_all add: page_count_def page_size_def)
  have r30: "map_option (map_prod (map_sum id length) id) (getRecords sample_exchange [] 30)
       = Some (Inr 30, [(''GLUE'', [0, 1, 27]), (''GLUE'', [0, 28, 3])])"
    using a p30
    by (simp add: page_request_def storeBEShort_def COMMAND_GLUCOSE_RESULT_def upt_conv_Cons)
  have r2: "getRecords two_record_exchange [] 2
       = Some (Inr [unpack_record [20, 5, 17, 8, 30, 0, 0x08, 0x02, 0x59,
                                   20, 5, 18, 7, 15, 30, 0x40, 0x00, 0x0C] 0,
                    unpack_record [20, 5, 17, 8, 30, 0, 0x08, 0x02, 0x59,
                                   20, 5, 18, 7, 15, 30, 0x40, 0x00, 0x0C] 9],
               [(''GLUE'', [0, 1, 2])])"
    using b p2
    by (simp add: page_request_def page_records_def storeBEShort_def COMMAND_GLUCOSE_RESULT_def
        upt_conv_Cons)
  show ?thesis
    using p30 r30 r2
    by (simp add: unpack_record_def extractByte_def extractBEShort_def Let_def)
qed


subsection \<open>The read loop of commandResponse\<close>

text \<open>
  The loop never returns from a state and a transport that keep an invariant under which
  every report leaves the loop running.
\<close>

lemma receiveLoop_diverges:
  assumes step: "\<And>hid s. I hid s \<Longrightarrow>
            \<exists>s'. receive_report s (t (received hid)) = Inr s' \<and> \<not> foundETX s'
                 \<and> I (snd (receiveTimeout t READ_TIMEOUT hid)) s'"
    and init: "I hid s"
  shows "receiveLoop t hid s = None"
proof (rule ccontr)
  assume "receiveLoop t hid s \<noteq> None"
  then obtain y where y: "receiveLoop t hid s = Some y" by auto
  have "u = t \<longrightarrow> \<not> I hid s"
    if "receiveLoop u hid s = Some y" for u hid s y
  proof (rule receiveLoop.raw_induct [where P = "\<lambda>u hid s y. u = t \<longrightarrow> \<not> I hid s", OF _ that])
    fix loop u hid s y
    assume IH: "\<And>u hid s y. loop u hid s = Some y \<Longrightarrow> u = t \<longrightarrow> \<not> I hid s"
      and eq: "(case receiveTimeout u READ_TIMEOUT hid of
                 (result, hid') \<Rightarrow>
                   (case receive_report s result of
                      Inl e \<Rightarrow> Some (Inl e, hid')
                    | Inr s' \<Rightarrow> if \<not> foundETX s' then loop u hid' s' else Some (Inr s', hid')))
               = Some y"
    show "u = t \<longrightarrow> \<not> I hid s"
    proof (intro impI notI)
      assume u: "u = t" and "I hid s"
      from step [OF this(2)] obtain s' where
        s': "receive_report s (t (received hid)) = Inr s'" "\<not> foundETX s'"
            "I (snd (receiveTimeout t READ_TIMEOUT hid)) s'"
        by blast
      from eq s' u have "loop t (snd (receiveTimeout t READ_TIMEOUT hid)) s' = Some y"
        by (simp add: receiveTimeout_def)
      from IH [OF this] s'(3) show False by simp
    qed
  qed
  from this [OF y] init show False by simp
qed

lemma receive_report_empty: "receive_report s [] = Inr s"
  by (simp add: receive_report_def)

lemma receive_report_no_stx:
  "\<not> foundSTX s \<Longrightarrow> STX \<notin> set (report_payload result) \<Longrightarrow> receive_report s result = Inr s"
  by (simp add: receive_report_def Let_def)

lemma receiveLoop_no_stx:
  assumes "\<forall>k. t k = [] \<or> STX \<notin> set (report_payload (t k))"
    and "\<not> foundSTX s" and "\<not> foundETX s"
  shows "receiveLoop t hid s = None"
proof (rule receiveLoop_diverges [where I = "\<lambda>hid s. \<not> foundSTX s \<and> \<not> foundETX s"])
  fix hid :: driver_state and s :: rx_state
  assume I: "\<not> foundSTX s \<and> \<not> foundETX s"
  have "receive_report s (t (received hid)) = Inr s"
    using assms(1) [rule_format, of "received hid"] I
    by (auto simp: receive_report_empty receive_report_no_stx)
  with I show "\<exists>s'. receive_report s (t (received hid)) = Inr s' \<and> \<not> foundETX s'
                 \<and> (\<not> foundSTX s' \<and> \<not> foundETX s')"
    by simp
next
  show "\<not> foundSTX s \<and> \<not> foundETX s" using assms by simp
qed

lemma receiveLoop_silent_tail:
  assumes "\<forall>k \<ge> k0. t k = []" and "k0 \<le> received hid" and "\<not> foundETX s"
  shows "receiveLoop t hid s = None"
proof (rule receiveLoop_diverges [where I = "\<lambda>hid s. k0 \<le> received hid \<and> \<not> foundETX s"])
  fix hid :: driver_state and s :: rx_state
  assume I: "k0 \<le> received hid \<and> \<not> foundETX s"
  then have "receive_report s (t (received hid)) = Inr s"
    using assms(1) by (simp add: receive_report_empty)
  with I show "\<exists>s'. receive_report s (t (received hid)) = Inr s' \<and> \<not> foundETX s'
                 \<and> (k0 \<le> received (snd (receiveTimeout t READ_TIMEOUT hid)) \<and> \<not> foundETX s')"
    by (simp add: receiveTimeout_def)
next
  show "k0 \<le> received hid \<and> \<not> foundETX s" using assms by simp
qed

lemma extractHeader_error: "extractHeader bytes = Inl e \<Longrightarrow> e = HeaderNotFound"
  by (simp add: extractHeader_def Let_def split: if_splits)

lemma receive_report_error: "receive_report s result = Inl e \<Longrightarrow> e = HeaderNotFound"
  by (auto simp: receive_report_def Let_def dest: extractHeader_error
      split: if_splits sum.splits)

lemma receiveLoop_error:
  assumes "receiveLoop t hid s = Some (Inl e, hid')"
  shows "e = HeaderNotFound"
proof -
  have "\<forall>e hid'. y = (Inl e, hid') \<longrightarrow> e = HeaderNotFound"
    if "receiveLoop t hid s = Some y" for y
  proof (rule receiveLoop.raw_induct
      [where P = "\<lambda>t hid s y. \<forall>e hid'. y = (Inl e, hid') \<longrightarrow> e = HeaderNotFound", OF _ that])
    fix loop u hid s y
    assume IH: "\<And>u hid s y. loop u hid s = Some y \<Longrightarrow>
                  \<forall>e hid'. y = (Inl e, hid') \<longrightarrow> e = HeaderNotFound"
      and eq: "(case receiveTimeout u READ_TIMEOUT hid of
                 (result, hid') \<Rightarrow>
                   (case receive_report s result of
                      Inl e \<Rightarrow> Some (Inl e, hid')
                    | Inr s' \<Rightarrow> if \<not> foundETX s' then loop u hid' s' else Some (Inr s', hid')))
               = Some y"
    show "\<forall>e hid'. y = (Inl e, hid') \<longrightarrow> e = HeaderNotFound"
      using eq IH
      by (auto simp: receiveTimeout_def dest: receive_report_error
          split: sum.splits if_splits)
  qed
  from this [OF assms] show ?thesis by simp
qed

lemma receiveLoop_complete:
  assumes "receiveLoop t hid s = Some (Inr s', hid')"
  shows "foundETX s'"
proof -
  have "\<forall>s' hid'. y = (Inr s', hid') \<longrightarrow> foundETX s'"
    if "receiveLoop t hid s = Some y" for y
  proof (rule receiveLoop.raw_induct
      [where P = "\<lambda>t hid s y. \<forall>s' hid'. y = (Inr s', hid') \<longrightarrow> foundETX s'", OF _ that])
    fix loop u hid s y
    assume IH: "\<And>u hid s y. loop u hid s = Some y \<Longrightarrow>
                  \<forall>s' hid'. y = (Inr s', hid') \<longrightarrow> foundETX s'"
      and eq: "(case receiveTimeout u READ_TIMEOUT hid of
                 (result, hid') \<Rightarrow>
                   (case receive_report s result of
                      Inl e \<Rightarrow> Some (Inl e, hid')
                    | Inr s' \<Rightarrow> if \<not> foundETX s' then loop u hid' s' else Some (Inr s', hid')))
               = Some y"
    show "\<forall>s' hid'. y = (Inr s', hid') \<longrightarrow> foundETX s'"
      using eq IH
      by (auto simp: receiveTimeout_def split: sum.splits if_splits)
  qed
  from this [OF assms] show ?thesis by simp
qed

lemma commandResponse_diverges:
  "receiveLoop t (sendPromisified (buildPacket crc cmd payload) hid) rx_init = None \<Longrightarrow>
   commandResponse crc t hid cmd payload = None"
  by (simp add: commandResponse_def Let_def)

lemma rx_init_flags: "\<not> foundSTX rx_init" "\<not> foundETX rx_init"
  by (simp_all add: rx_init_def)

lemma bad_header_loop:
  "receiveLoop bad_header_transport driver_init rx_init
     = Some (Inl HeaderNotFound,
             \<lparr> retries = 0, received = 1, trace = [ReceiveTimeout 2000] \<rparr>)"
  by (subst receiveLoop.simps)
     (simp add: receiveTimeout_def receive_report_def report_payload_def bad_header_transport_def driver_init_def
       rx_init_def STX_def ETX_def HEADER_SIZE_def READ_TIMEOUT_def Let_def decode_eval)

lemma rtim_response_bytes:
  "rtim_response = [0x02, 0x69, 0x53, 0x50, 0x63, 13, 0x52, 0x54, 0x49, 0x4D,
                    20, 5, 17, 8, 30, 0, 0, 0, 0x03]"
  by (simp add: rtim_response_def buildPacket_layout packet_body_def pack_z_def
      COMMAND_HEADER_def COMMAND_READ_TIME_def byte_of_char_def storeBEShort_def zero_crc_def
      STX_def ETX_def)

lemma rtim_response_valid:
  "extractPacketIntoMessages zero_crc rtim_response
     = Inr \<lparr> command = ''RTIM'', data = [20, 5, 17, 8, 30, 0], crc_field = Some 0 \<rparr>"
  by (simp add: rtim_response_bytes extractPacketIntoMessages_def zero_crc_def decode_eval)

lemma whole_packet_first_report:
  "receive_report rx_init (19 # rtim_response)
     = Inr \<lparr> raw = rtim_response, foundSTX = True, foundETX = False, packetSize = Some 64 \<rparr>"
  by (simp add: receive_report_def report_payload_def rx_init_def rtim_response_bytes STX_def ETX_def HEADER_SIZE_def
      Let_def)

lemma whole_packet_loop:
  "receiveLoop whole_packet_transport driver_init rx_init = None"
proof -
  let ?hid = "snd (receiveTimeout whole_packet_transport READ_TIMEOUT driver_init)"
  let ?s = "\<lparr> raw = rtim_response, foundSTX = True, foundETX = False, packetSize = Some 64 \<rparr>"
  have "\<forall>k\<ge>1. whole_packet_transport k = []"
    by (simp add: whole_packet_transport_def)
  then have "receiveLoop whole_packet_transport ?hid ?s = None"
    by (rule receiveLoop_silent_tail) (simp_all add: receiveTimeout_def driver_init_def)
  then show ?thesis
    by (subst receiveLoop.simps)
       (simp add: receiveTimeout_def whole_packet_transport_def whole_packet_first_report
         driver_init_def)
qed

lemma header_split_loop:
  "receiveLoop header_split_transport driver_init rx_init
     = Some (Inr \<lparr> raw = rtim_response, foundSTX = True, foundETX = True, packetSize = Some 13 \<rparr>,
             \<lparr> retries = 0, received = 2, trace = [ReceiveTimeout 2000, ReceiveTimeout 2000] \<rparr>)"
  apply (subst receiveLoop.simps)
  apply (simp add: receiveTimeout_def receive_report_def report_payload_def header_split_transport_def driver_init_def
       rx_init_def rtim_response_bytes STX_def ETX_def HEADER_SIZE_def READ_TIMEOUT_def Let_def
       decode_eval)
  apply (subst receiveLoop.simps)
  apply (simp add: receiveTimeout_def receive_report_def report_payload_def header_split_transport_def driver_init_def
       rx_init_def rtim_response_bytes STX_def ETX_def HEADER_SIZE_def READ_TIMEOUT_def Let_def
       decode_eval)
  done

text \<open>
  C1, as the claim states it, fails: when every receive times out with an empty result the
  read loop does not fail with a timeout, it never returns, and neither does
  \<^verbatim>\<open>commandResponse\<close>.
\<close>

theorem receiveLoop_timeout_counterexample:
  "receiveLoop silent driver_init rx_init = None
   \<and> commandResponse zero_crc silent driver_init COMMAND_READ_SERIAL [] = None"
proof -
  have "\<forall>k. silent k = [] \<or> STX \<notin> set (report_payload (silent k))"
    by (simp add: silent_def)
  then have "receiveLoop silent hid rx_init = None" for hid
    using rx_init_flags by (rule receiveLoop_no_stx)
  then show ?thesis by (simp add: commandResponse_diverges)
qed

text \<open>
  C1, amended. For every sequence of reports none of which has the start-control byte in
  its payload region (empty results after the read timeout among them), the read loop of
  \<^verbatim>\<open>commandResponse\<close> never ends: an empty result or a report without the start-control
  byte only starts the next receive, and no timeout failure is raised. From any state the
  loop has two exits only: the failure "Header not found", and the end of the loop with the
  end of the packet found.
\<close>

theorem receiveLoop_never_times_out:
  "((\<forall>k. STX \<notin> set (report_payload (t k))) \<longrightarrow>
       receiveLoop t hid rx_init = None \<and> commandResponse crc t hid cmd payload = None)
   \<and> (receiveLoop t hid s = Some (Inl e, hid') \<longrightarrow> e = HeaderNotFound)
   \<and> (receiveLoop t hid s = Some (Inr s', hid') \<longrightarrow> foundETX s')"
proof (intro conjI impI)
  assume a: "\<forall>k. STX \<notin> set (report_payload (t k))"
  then have b: "\<forall>k. t k = [] \<or> STX \<notin> set (report_payload (t k))" by simp
  have l: "receiveLoop t h rx_init = None" for h
    using b rx_init_flags by (rule receiveLoop_no_stx)
  then show "receiveLoop t hid rx_init = None" by simp
  from l show "commandResponse crc t hid cmd payload = None"
    by (simp add: commandResponse_diverges)
next
  assume "receiveLoop t hid s = Some (Inl e, hid')"
  then show "e = HeaderNotFound" by (rule receiveLoop_error)
next
  assume "receiveLoop t hid s = Some (Inr s', hid')"
  then show "foundETX s'" by (rule receiveLoop_complete)
qed

theorem receiveLoop_never_times_out_witness:
  "receiveLoop noise_transport driver_init rx_init = None
   \<and> commandResponse zero_crc noise_transport driver_init COMMAND_READ_SERIAL [] = None
   \<and> receiveLoop bad_header_transport driver_init rx_init
       = Some (Inl HeaderNotFound, \<lparr> retries = 0, received = 1, trace = [ReceiveTimeout 2000] \<rparr>)
   \<and> receiveLoop header_split_transport driver_init rx_init
       = Some (Inr \<lparr> raw = rtim_response, foundSTX = True, foundETX = True,
                     packetSize = Some 13 \<rparr>,
               \<lparr> retries = 0, received = 2,
                 trace = [ReceiveTimeout 2000, ReceiveTimeout 2000] \<rparr>)"
proof -
  have "\<forall>k. STX \<notin> set (report_payload (noise_transport k))"
    by (simp add: noise_transport_def report_payload_def STX_def)
  then show ?thesis
    using receiveLoop_never_times_out
        [where t = noise_transport and hid = driver_init and crc = zero_crc
           and cmd = COMMAND_READ_SERIAL and payload = "[]"]
      bad_header_loop header_split_loop
    by simp
qed

text \<open>
  C5. The read loop decodes the header only when the buffer holds exactly 6 bytes after a
  report is appended; a buffer that passes from fewer to more than 6 bytes keeps the
  packet size 64 it started with. A response that is valid for the decoder, delivered
  whole in one report, is therefore never completed: the loop waits for 70 bytes and never
  returns. The same bytes delivered as the header and then the rest are reassembled into
  exactly the response.
\<close>

theorem whole_packet_never_completes:
  "extractPacketIntoMessages zero_crc rtim_response
     = Inr \<lparr> command = ''RTIM'', data = [20, 5, 17, 8, 30, 0], crc_field = Some 0 \<rparr>
   \<and> whole_packet_transport 0 = 19 # rtim_response
   \<and> receiveLoop whole_packet_transport driver_init rx_init = None
   \<and> header_split_transport 0 @ header_split_transport 1
       = (6 # take 6 rtim_response) @ (13 # drop 6 rtim_response)
   \<and> receiveLoop header_split_transport driver_init rx_init
       = Some (Inr \<lparr> raw = rtim_response, foundSTX = True, foundETX = True,
                     packetSize = Some 13 \<rparr>,
               \<lparr> retries = 0, received = 2,
                 trace = [ReceiveTimeout 2000, ReceiveTimeout 2000] \<rparr>)"
  using rtim_response_valid whole_packet_loop header_split_loop
  by (simp add: whole_packet_transport_def header_split_transport_def)

end
